theory Spec2Isabelle
  imports Complex_Main "HOL-Library.Word"
begin

section \<open>Data model of the tile engine (Engine/ImagePrivate.cpp)\<close>

text \<open>
  The enumerations the engine switches on. Their declarations live in headers of the
  project; the constructors carry the names the source uses.
\<close>

datatype StorageModeEnum =
  eStorageModeNone | eStorageModeRAM | eStorageModeDisk | eStorageModeGLTex

datatype CacheAccessModeEnum =
  eCacheAccessModeNone | eCacheAccessModeReadWrite | eCacheAccessModeWriteOnly

datatype CacheEntryStatusEnum =
  eCacheEntryStatusCached | eCacheEntryStatusMustCompute | eCacheEntryStatusComputationPending

datatype ImageBufferLayoutEnum =
  eImageBufferLayoutMonoChannelTiled
  | eImageBufferLayoutRGBACoplanarFullRect
  | eImageBufferLayoutRGBAPackedFullRect

datatype ImageBitDepthEnum =
  eImageBitDepthNone | eImageBitDepthByte | eImageBitDepthShort
  | eImageBitDepthHalf | eImageBitDepthFloat


text \<open>\<open>RectI\<close>: an integer rectangle, \<open>x1 \<le> x < x2\<close> and \<open>y1 \<le> y < y2\<close>.\<close>

record RectI =
  x1 :: int
  y1 :: int
  x2 :: int
  y2 :: int

record TileCoord =
  tx :: int
  ty :: int

text \<open>
  \<open>ImageTileKey\<close>: the seven constructor arguments of lines 157-163 and 207-213, in
  their order. The mip level is an \<open>unsigned int\<close>; the only arithmetic on it is
  \<open>firstLookupLevel - lookupLevel\<close> with \<open>lookupLevel = 0\<close>, so \<open>nat\<close> loses nothing.
\<close>

record ImageTileKey =
  keyNodeHash :: nat
  keyChannelName :: string
  keyProxyScale :: "real \<times> real"
  keyMipMapLevel :: nat
  keyDraft :: bool
  keyBitDepth :: ImageBitDepthEnum
  keyTileBounds :: RectI

text \<open>
  A storage buffer (\<open>ImageStorageBase\<close> and its three subclasses). \<open>pixelData = None\<close>
  stands for memory whose content is indeterminate (not allocated, or allocated and not
  yet written). \<open>storageKey\<close> is the key set by \<open>setKey\<close> on a cache tile storage.
\<close>

record 'd ImageStorage =
  storageMode :: StorageModeEnum
  isAllocated :: bool
  storageKey :: "ImageTileKey option"
  pixelData :: "'d option"

text \<open>
  \<open>CacheEntryLocker\<close>: the handle \<open>Cache::get\<close> returns. \<open>getStatus\<close> reads the status
  the cache reported; \<open>lockerKey\<close> is the key of the entry it was obtained for.
\<close>

record CacheEntryLocker =
  getStatus :: CacheEntryStatusEnum
  lockerKey :: ImageTileKey

text \<open>
  \<open>Image::MonoChannelTile\<close> and \<open>Image::Tile\<close>. \<open>entryLocker\<close> is a shared pointer
  that may be null. \<open>buffer\<close> is assigned at lines 108, 115 and 125 before any locker is
  stored on the channel, so it is a plain value here.
\<close>

record 'd MonoChannelTile =
  channelIndex :: int
  buffer :: "'d ImageStorage"
  entryLocker :: "CacheEntryLocker option"

record 'd Tile =
  tileBounds :: RectI
  perChannelTile :: "'d MonoChannelTile list"

subsection \<open>The cache service\<close>

text \<open>
  Modelled from the spec: the tile cache (\<open>Cache::get\<close>, \<open>Cache::removeEntry\<close>,
  \<open>CacheEntryLocker::insertInCache\<close>) is an external collaborator whose code is not part
  of the sources at hand. The spec gives its contract: a probe of a keyed entry reports
  cached, must-compute or pending (another party computes it); insert makes the entry
  visible to later probes of the same key; remove deletes it. A slot per key holds that
  state. A probe that reports cached hands the caller the stored pixels.
\<close>

datatype 'd CacheSlot = SlotEmpty | SlotPending | SlotCached "'d option"

type_synonym 'd Cache = "ImageTileKey \<Rightarrow> 'd CacheSlot"

definition Cache_get :: "'d Cache \<Rightarrow> ImageTileKey \<Rightarrow> CacheEntryLocker" where
  "Cache_get cache k =
     \<lparr> getStatus = (case cache k of
          SlotCached d \<Rightarrow> eCacheEntryStatusCached
        | SlotPending \<Rightarrow> eCacheEntryStatusComputationPending
        | SlotEmpty \<Rightarrow> eCacheEntryStatusMustCompute),
       lockerKey = k \<rparr>"

definition Cache_fetch :: "'d Cache \<Rightarrow> ImageTileKey \<Rightarrow> 'd option" where
  "Cache_fetch cache k = (case cache k of SlotCached d \<Rightarrow> d | _ \<Rightarrow> None)"

definition Cache_removeEntry :: "'d Cache \<Rightarrow> ImageTileKey \<Rightarrow> 'd Cache" where
  "Cache_removeEntry cache k = cache(k := SlotEmpty)"

definition insertInCache :: "CacheEntryLocker \<Rightarrow> 'd ImageStorage \<Rightarrow> 'd Cache \<Rightarrow> 'd Cache" where
  "insertInCache locker buf cache = cache(lockerKey locker := SlotCached (pixelData buf))"

section \<open>Cache insertion: \<open>ImagePrivate::insertTilesInCache\<close> (lines 348-387)\<close>

text \<open>
  The body of the inner loop (lines 369-383) for one channel. The result is the channel,
  the cache, and whether \<open>insertInCache\<close> was called on the channel's locker.
\<close>

definition insertChannelInCache ::
  "bool \<Rightarrow> 'd MonoChannelTile \<Rightarrow> 'd Cache \<Rightarrow> 'd MonoChannelTile \<times> 'd Cache \<times> bool" where
  "insertChannelInCache renderAborted thisChannelTile cache =
     (case entryLocker thisChannelTile of
        None \<Rightarrow> (thisChannelTile, cache, False)
      | Some locker \<Rightarrow>
          (let status = getStatus locker;
               doInsert = (status = eCacheEntryStatusMustCompute
                            \<and> isAllocated (buffer thisChannelTile) \<and> \<not> renderAborted);
               cache' = (if doInsert then insertInCache locker (buffer thisChannelTile) cache
                         else cache);
               tile' = (if status \<noteq> eCacheEntryStatusComputationPending
                        then thisChannelTile\<lparr> entryLocker := None \<rparr>
                        else thisChannelTile)
           in (tile', cache', doInsert)))"

text \<open>The loop over the channels of one tile (line 367).\<close>

fun insertChannelsInCache ::
  "bool \<Rightarrow> 'd MonoChannelTile list \<Rightarrow> 'd Cache
     \<Rightarrow> 'd MonoChannelTile list \<times> 'd Cache \<times> bool list" where
  "insertChannelsInCache renderAborted [] cache = ([], cache, [])"
| "insertChannelsInCache renderAborted (t # ts) cache =
     (case insertChannelInCache renderAborted t cache of
        (t', cache', ins) \<Rightarrow>
          (case insertChannelsInCache renderAborted ts cache' of
             (ts', cache'', inss) \<Rightarrow> (t' # ts', cache'', ins # inss)))"

text \<open>
  The loop over the tile map (line 363). A \<open>std::map\<close> is walked in key order; the
  association list holds the entries in that order.
\<close>

fun insertTileListInCache ::
  "bool \<Rightarrow> (TileCoord \<times> 'd Tile) list \<Rightarrow> 'd Cache
     \<Rightarrow> (TileCoord \<times> 'd Tile) list \<times> 'd Cache \<times> bool list list" where
  "insertTileListInCache renderAborted [] cache = ([], cache, [])"
| "insertTileListInCache renderAborted ((coord, tile) # rest) cache =
     (case insertChannelsInCache renderAborted (perChannelTile tile) cache of
        (chans', cache', inss) \<Rightarrow>
          (case insertTileListInCache renderAborted rest cache' of
             (rest', cache'', insss) \<Rightarrow>
               ((coord, tile\<lparr> perChannelTile := chans' \<rparr>) # rest', cache'', inss # insss)))"

text \<open>
  The whole function. \<open>renderClone\<close> is the weak pointer to the effect: \<open>None\<close> when it
  has expired, otherwise the effect's \<open>isRenderAborted()\<close> (lines 357-361).
\<close>

definition insertTilesInCache ::
  "bool option \<Rightarrow> (TileCoord \<times> 'd Tile) list \<Rightarrow> 'd Cache
     \<Rightarrow> (TileCoord \<times> 'd Tile) list \<times> 'd Cache \<times> bool list list" where
  "insertTilesInCache renderClone tiles cache =
     (let renderAborted = (case renderClone of None \<Rightarrow> False | Some aborted \<Rightarrow> aborted)
      in insertTileListInCache renderAborted tiles cache)"

text \<open>
  The specification of one channel: the channel after the call, and whether its buffer
  is inserted into the cache.
\<close>

definition channelAfterInsert :: "'d MonoChannelTile \<Rightarrow> 'd MonoChannelTile" where
  "channelAfterInsert t =
     (case entryLocker t of
        None \<Rightarrow> t
      | Some locker \<Rightarrow>
          (if getStatus locker = eCacheEntryStatusComputationPending then t
           else t\<lparr> entryLocker := None \<rparr>))"

definition channelIsInserted :: "bool \<Rightarrow> 'd MonoChannelTile \<Rightarrow> bool" where
  "channelIsInserted renderAborted t =
     (case entryLocker t of
        None \<Rightarrow> False
      | Some locker \<Rightarrow>
          getStatus locker = eCacheEntryStatusMustCompute
          \<and> isAllocated (buffer t) \<and> \<not> renderAborted)"

text \<open>
  The channels of the tile map in the order the two loops walk them; the channels whose
  buffer is inserted under a given key; and the cache the specification expects after
  the call: under every key the pixels of the last channel inserted under it, and what
  the cache held before where no channel is inserted under the key.
\<close>

definition channelsInOrder :: "(TileCoord \<times> 'd Tile) list \<Rightarrow> 'd MonoChannelTile list" where
  "channelsInOrder tiles = concat (map (\<lambda>(coord, tile). perChannelTile tile) tiles)"

definition insertsAt :: "bool \<Rightarrow> ImageTileKey \<Rightarrow> 'd MonoChannelTile \<Rightarrow> bool" where
  "insertsAt renderAborted k t =
     (channelIsInserted renderAborted t \<and> map_option lockerKey (entryLocker t) = Some k)"

definition cacheAfterInsertion ::
  "bool \<Rightarrow> 'd MonoChannelTile list \<Rightarrow> 'd Cache \<Rightarrow> 'd Cache" where
  "cacheAfterInsertion renderAborted channels cache =
     (\<lambda>k. case find (insertsAt renderAborted k) (rev channels) of
             None \<Rightarrow> cache k
           | Some t \<Rightarrow> SlotCached (pixelData (buffer t)))"

section \<open>Tile bounds (lines 59-73 of \<open>initTileAndFetchFromCache\<close>)\<close>

text \<open>
  Coordinates and tile sizes are C++ \<open>int\<close>, 32 bits wide. \<open>int32 v\<close> is the value an
  \<open>int\<close> holds after an operation whose exact result is \<open>v\<close>: \<open>v\<close> itself when it is
  in the range of \<open>int\<close>, and the two's complement wrap-around otherwise (there the source
  has undefined behaviour, and the wrap-around is what the usual targets compute).
\<close>

definition int32 :: "int \<Rightarrow> int" where
  "int32 v = signed_take_bit 31 v"

text \<open>A rectangle whose four coordinates are in the range of \<open>int\<close>.\<close>

definition fitsInt32 :: "RectI \<Rightarrow> bool" where
  "fitsInt32 r \<longleftrightarrow>
     - 2147483648 \<le> x1 r \<and> x1 r \<le> 2147483647 \<and> - 2147483648 \<le> y1 r \<and> y1 r \<le> 2147483647
     \<and> - 2147483648 \<le> x2 r \<and> x2 r \<le> 2147483647 \<and> - 2147483648 \<le> y2 r \<and> y2 r \<le> 2147483647"

text \<open>
  The second \<open>switch\<close> on the buffer format. The sums \<open>coord.tx + tileSizeX\<close> and
  \<open>coord.ty + tileSizeY\<close> (lines 65-66) are sums of \<open>int\<close>.
\<close>

definition initTileBounds ::
  "ImageBufferLayoutEnum \<Rightarrow> int \<Rightarrow> int \<Rightarrow> RectI \<Rightarrow> TileCoord \<Rightarrow> RectI" where
  "initTileBounds bufferFormat tileSizeX tileSizeY originalBounds coord =
     (case bufferFormat of
        eImageBufferLayoutMonoChannelTiled \<Rightarrow>
          \<lparr> x1 = max (tx coord) (x1 originalBounds),
            y1 = max (ty coord) (y1 originalBounds),
            x2 = min (int32 (tx coord + tileSizeX)) (x2 originalBounds),
            y2 = min (int32 (ty coord + tileSizeY)) (y2 originalBounds) \<rparr>
      | eImageBufferLayoutRGBACoplanarFullRect \<Rightarrow> originalBounds
      | eImageBufferLayoutRGBAPackedFullRect \<Rightarrow> originalBounds)"

text \<open>A pixel lies in a rectangle: \<open>x1 \<le> x < x2\<close> and \<open>y1 \<le> y < y2\<close>.\<close>

definition rectContains :: "RectI \<Rightarrow> int \<Rightarrow> int \<Rightarrow> bool" where
  "rectContains r x y \<longleftrightarrow> x1 r \<le> x \<and> x < x2 r \<and> y1 r \<le> y \<and> y < y2 r"

text \<open>The nominal grid cell of a tile coordinate, as a set of pixels of the plane.\<close>

definition tileCell :: "int \<Rightarrow> int \<Rightarrow> TileCoord \<Rightarrow> RectI" where
  "tileCell tileSizeX tileSizeY coord =
     \<lparr> x1 = tx coord, y1 = ty coord, x2 = tx coord + tileSizeX, y2 = ty coord + tileSizeY \<rparr>"

text \<open>
  Modelled from the spec: \<open>RectI::roundToTileSize\<close> and the construction of the tile map
  are not part of the sources at hand. The spec says the tile map is populated at
  construction with the grid tiles computed from the bounds and the tile size, and the
  copy loops of lines 597-602 walk the grid from the bounds rounded to the tile size in
  steps of the tile size. Rounding takes the lower edges down and the upper edges up to
  a multiple of the tile size.
\<close>

definition roundToTileSize :: "int \<Rightarrow> int \<Rightarrow> RectI \<Rightarrow> RectI" where
  "roundToTileSize tileSizeX tileSizeY r =
     \<lparr> x1 = (x1 r div tileSizeX) * tileSizeX,
       y1 = (y1 r div tileSizeY) * tileSizeY,
       x2 = - ((- x2 r) div tileSizeX) * tileSizeX,
       y2 = - ((- y2 r) div tileSizeY) * tileSizeY \<rparr>"

definition gridSteps :: "int \<Rightarrow> int \<Rightarrow> int \<Rightarrow> int list" where
  "gridSteps lo hi step = map (\<lambda>i. lo + int i * step) [0 ..< nat ((hi - lo) div step)]"

definition tileGrid :: "int \<Rightarrow> int \<Rightarrow> RectI \<Rightarrow> TileCoord list" where
  "tileGrid tileSizeX tileSizeY originalBounds =
     (let r = roundToTileSize tileSizeX tileSizeY originalBounds
      in concat (map (\<lambda>yy. map (\<lambda>xx. \<lparr> tx = xx, ty = yy \<rparr>) (gridSteps (x1 r) (x2 r) tileSizeX))
                     (gridSteps (y1 r) (y2 r) tileSizeY)))"

section \<open>Pixel kernels (lines 767-984)\<close>

subsection \<open>Raw memory and loops\<close>

text \<open>
  The kernels work on raw pointers. A pointer is an address counted in elements of the
  pixel type \<open>PIX\<close>; the memory maps the addresses that belong to a buffer to their
  content. Reading or writing any other address is undefined behaviour in the source and
  an error here, and so is an integer division by zero.
\<close>

datatype kernel_error = InvalidRead int | InvalidWrite int | DivisionByZero

type_synonym 'p memory = "int \<Rightarrow> 'p option"

definition readPixel :: "'p memory \<Rightarrow> int \<Rightarrow> kernel_error + 'p" where
  "readPixel mem p = (case mem p of None \<Rightarrow> Inl (InvalidRead p) | Some v \<Rightarrow> Inr v)"

definition writePixel :: "'p memory \<Rightarrow> int \<Rightarrow> 'p \<Rightarrow> kernel_error + 'p memory" where
  "writePixel mem p v = (case mem p of None \<Rightarrow> Inl (InvalidWrite p) | Some old \<Rightarrow> Inr (mem(p \<mapsto> v)))"

text \<open>A \<open>for\<close> loop over the values of its counter, stopping at the first error.\<close>

fun forEach :: "'i list \<Rightarrow> ('i \<Rightarrow> 's \<Rightarrow> 'e + 's) \<Rightarrow> 's \<Rightarrow> 'e + 's" where
  "forEach [] body s = Inr s"
| "forEach (i # rest) body s =
     (case body i s of Inl e \<Rightarrow> Inl e | Inr s' \<Rightarrow> forEach rest body s')"

text \<open>\<open>RectI::width\<close>.\<close>

definition width :: "RectI \<Rightarrow> int" where
  "width r = x2 r - x1 r"

text \<open>The state of a kernel: the per-component pointers, which the loops advance, and the memory.\<close>

record 'p kernelState =
  srcPixelPtrs :: "int list"
  dstPixelPtrs :: "int list"
  memory :: "'p memory"
  hasnan :: bool

subsection \<open>The arithmetic of a pixel type\<close>

text \<open>
  The templates are instantiated with \<open>unsigned char\<close>, \<open>unsigned short\<close> and \<open>float\<close>.
  What the kernels need of \<open>PIX\<close>: the value \<open>0\<close>, the expression
  \<open>(a + b + c + d) / sum\<close> of line 828, the comparison \<open>!=\<close> of line 916 and the value
  \<open>1.\<close> converted to \<open>PIX\<close> (line 917).
\<close>

record 'p pixelType =
  pixZero :: 'p
  pixOne :: 'p
  pixAverage :: "'p \<Rightarrow> 'p \<Rightarrow> 'p \<Rightarrow> 'p \<Rightarrow> int \<Rightarrow> kernel_error + 'p"
  pixNotEqual :: "'p \<Rightarrow> 'p \<Rightarrow> bool"

text \<open>
  The unsigned integer types: the operands are promoted to \<open>int\<close>, the sum of four of
  them fits, the division is the integer division (all operands are non-negative) and
  the quotient is converted back to \<open>PIX\<close>.
\<close>

definition unsignedPixel :: "('a::len) word pixelType" where
  "unsignedPixel =
     \<lparr> pixZero = 0,
       pixOne = 1,
       pixAverage = (\<lambda>a b c d n.
          if n = 0 then Inl DivisionByZero
          else Inr (word_of_int ((uint a + uint b + uint c + uint d) div n))),
       pixNotEqual = (\<lambda>a b. a \<noteq> b) \<rparr>"

text \<open>
  A \<open>float\<close> sample: NaN, an infinity (\<open>True\<close> for the positive one) or a finite
  value. The comparison \<open>!=\<close> holds whenever an operand is NaN. Sums and quotients
  follow IEEE 754 on NaN and the infinities; on finite samples they are exact here (the
  rounding of \<open>float\<close> and the sign of zero are not modelled).
\<close>

datatype float_sample = FloatNaN | FloatInfinity bool | FloatFinite real

definition floatNotEqual :: "float_sample \<Rightarrow> float_sample \<Rightarrow> bool" where
  "floatNotEqual a b \<longleftrightarrow> a = FloatNaN \<or> b = FloatNaN \<or> a \<noteq> b"

fun floatAdd :: "float_sample \<Rightarrow> float_sample \<Rightarrow> float_sample" where
  "floatAdd FloatNaN b = FloatNaN"
| "floatAdd a FloatNaN = FloatNaN"
| "floatAdd (FloatInfinity s) (FloatInfinity t) = (if s = t then FloatInfinity s else FloatNaN)"
| "floatAdd (FloatInfinity s) (FloatFinite b) = FloatInfinity s"
| "floatAdd (FloatFinite a) (FloatInfinity t) = FloatInfinity t"
| "floatAdd (FloatFinite a) (FloatFinite b) = FloatFinite (a + b)"

fun floatDivide :: "float_sample \<Rightarrow> int \<Rightarrow> float_sample" where
  "floatDivide FloatNaN n = FloatNaN"
| "floatDivide (FloatInfinity s) n = FloatInfinity (if n < 0 then \<not> s else s)"
| "floatDivide (FloatFinite a) n =
     (if n = 0 then (if a = 0 then FloatNaN else FloatInfinity (0 < a))
      else FloatFinite (a / of_int n))"

definition floatPixel :: "float_sample pixelType" where
  "floatPixel =
     \<lparr> pixZero = FloatFinite 0,
       pixOne = FloatFinite 1,
       pixAverage = (\<lambda>a b c d n. Inr (floatDivide (floatAdd (floatAdd (floatAdd a b) c) d) n)),
       pixNotEqual = floatNotEqual \<rparr>"

subsection \<open>\<open>halveImageForInternal\<close> (lines 767-842)\<close>

text \<open>
  \<open>Image::getChannelPointers\<close> is declared in a header of the project: it yields, per
  component, the pointer to the sample at a given pixel of a buffer, and the distance
  between two pixels of a row. The kernel takes what it returned (lines 777 and 781) as
  arguments: \<open>srcPixelPtrs\<close> and \<open>dstPixelPtrs\<close> in the state, and the two strides.
\<close>

text \<open>The body of the loop over the components (lines 814-832), for component \<open>k\<close>;
  \<open>sumWH\<close> is the source's \<open>sum\<close>.\<close>

definition halveComponent ::
  "'p pixelType \<Rightarrow> int \<Rightarrow> int \<Rightarrow> int \<Rightarrow> bool \<Rightarrow> bool \<Rightarrow> bool \<Rightarrow> bool \<Rightarrow> int
     \<Rightarrow> nat \<Rightarrow> 'p kernelState \<Rightarrow> kernel_error + 'p kernelState" where
  "halveComponent PIX srcPixelStride dstPixelStride srcRowElementsCount
       pickThisCol pickNextCol pickThisRow pickNextRow sumWH k s =
     (let src = srcPixelPtrs s ! k;
          pick = (\<lambda>cond p. if cond then readPixel (memory s) p else Inr (pixZero PIX))
      in case pick (pickThisCol \<and> pickThisRow) src of Inl e \<Rightarrow> Inl e | Inr a \<Rightarrow>
         (case pick (pickNextCol \<and> pickThisRow) (src + srcPixelStride) of Inl e \<Rightarrow> Inl e | Inr b \<Rightarrow>
         (case pick (pickThisCol \<and> pickNextRow) (src + srcRowElementsCount) of Inl e \<Rightarrow> Inl e | Inr c \<Rightarrow>
         (case pick (pickNextCol \<and> pickNextRow) (src + srcRowElementsCount + srcPixelStride) of
            Inl e \<Rightarrow> Inl e | Inr d \<Rightarrow>
         (case pixAverage PIX a b c d sumWH of Inl e \<Rightarrow> Inl e | Inr v \<Rightarrow>
         (case writePixel (memory s) (dstPixelPtrs s ! k) v of Inl e \<Rightarrow> Inl e | Inr mem' \<Rightarrow>
            Inr (s\<lparr> memory := mem',
                    srcPixelPtrs := (srcPixelPtrs s)[k := src + srcPixelStride * 2],
                    dstPixelPtrs := (dstPixelPtrs s)[k := dstPixelPtrs s ! k + dstPixelStride] \<rparr>)))))))"

text \<open>The body of the loop over the pixels of a line (lines 799-834), for column \<open>x\<close>.\<close>

definition halvePixel ::
  "'p pixelType \<Rightarrow> nat \<Rightarrow> int \<Rightarrow> int \<Rightarrow> int \<Rightarrow> RectI \<Rightarrow> bool \<Rightarrow> bool \<Rightarrow> int
     \<Rightarrow> int \<Rightarrow> 'p kernelState \<Rightarrow> kernel_error + 'p kernelState" where
  "halvePixel PIX nComps srcPixelStride dstPixelStride srcRowElementsCount srcBounds
       pickThisRow pickNextRow sumH x s =
     (let srcx = x * 2;
          pickThisCol = (x1 srcBounds \<le> srcx + 0 \<and> srcx + 0 < x2 srcBounds);
          pickNextCol = (x1 srcBounds \<le> srcx + 1 \<and> srcx + 1 < x2 srcBounds);
          sumW = (if pickThisCol then 1 else 0) + (if pickNextCol then 1 else 0);
          sumWH = sumW * sumH
      in forEach [0 ..< nComps]
           (halveComponent PIX srcPixelStride dstPixelStride srcRowElementsCount
              pickThisCol pickNextCol pickThisRow pickNextRow sumWH) s)"

text \<open>The body of the loop over the scan lines (lines 787-841), for line \<open>y\<close>.\<close>

definition halveLine ::
  "'p pixelType \<Rightarrow> nat \<Rightarrow> int \<Rightarrow> int \<Rightarrow> RectI \<Rightarrow> RectI
     \<Rightarrow> int \<Rightarrow> 'p kernelState \<Rightarrow> kernel_error + 'p kernelState" where
  "halveLine PIX nComps srcPixelStride dstPixelStride srcBounds dstBounds y s =
     (let dstRowElementsCount = width dstBounds * dstPixelStride;
          srcRowElementsCount = width srcBounds * srcPixelStride;
          srcy = y * 2;
          pickThisRow = (y1 srcBounds \<le> srcy + 0 \<and> srcy + 0 < y2 srcBounds);
          pickNextRow = (y1 srcBounds \<le> srcy + 1 \<and> srcy + 1 < y2 srcBounds);
          sumH = (if pickNextRow then 1 else 0) + (if pickThisRow then 1 else 0)
      in case forEach [x1 dstBounds .. x2 dstBounds - 1]
                (halvePixel PIX nComps srcPixelStride dstPixelStride srcRowElementsCount srcBounds
                   pickThisRow pickNextRow sumH) s of
           Inl e \<Rightarrow> Inl e
         | Inr s' \<Rightarrow>
             forEach [0 ..< nComps]
               (\<lambda>k t. Inr (t\<lparr>
                  dstPixelPtrs := (dstPixelPtrs t)[k := dstPixelPtrs t ! k
                     + (dstRowElementsCount - width dstBounds * dstPixelStride)],
                  srcPixelPtrs := (srcPixelPtrs t)[k := srcPixelPtrs t ! k
                     + (srcRowElementsCount * 2 - width dstBounds * srcPixelStride)] \<rparr>))
               s')"

definition halveImageForInternal ::
  "'p pixelType \<Rightarrow> nat \<Rightarrow> int list \<Rightarrow> int \<Rightarrow> RectI \<Rightarrow> int list \<Rightarrow> int \<Rightarrow> RectI
     \<Rightarrow> 'p memory \<Rightarrow> kernel_error + 'p memory" where
  "halveImageForInternal PIX nComps srcPtrs srcPixelStride srcBounds
       dstPtrs dstPixelStride dstBounds mem =
     (case forEach [y1 dstBounds .. y2 dstBounds - 1]
             (halveLine PIX nComps srcPixelStride dstPixelStride srcBounds dstBounds)
             \<lparr> srcPixelPtrs = srcPtrs, dstPixelPtrs = dstPtrs, memory = mem, hasnan = False \<rparr> of
        Inl e \<Rightarrow> Inl e
      | Inr s \<Rightarrow> Inr (memory s))"

text \<open>\<open>halveImageForDepth\<close> (lines 845-869): the switch on the number of components.\<close>

definition halveImageForDepth ::
  "'p pixelType \<Rightarrow> int \<Rightarrow> int list \<Rightarrow> int \<Rightarrow> RectI \<Rightarrow> int list \<Rightarrow> int \<Rightarrow> RectI
     \<Rightarrow> 'p memory \<Rightarrow> kernel_error + 'p memory" where
  "halveImageForDepth PIX nComps srcPtrs srcPixelStride srcBounds
       dstPtrs dstPixelStride dstBounds mem =
     (if nComps = 1 \<or> nComps = 2 \<or> nComps = 3 \<or> nComps = 4
      then halveImageForInternal PIX (nat nComps) srcPtrs srcPixelStride srcBounds
             dstPtrs dstPixelStride dstBounds mem
      else Inr mem)"

text \<open>
  \<open>ImagePrivate::halveImage\<close> (lines 872-896): the switch on the bit depth. The pixel
  type of the memory is the one the bit depth selects, so its arithmetic is passed along.
  Half-float and no bit depth leave the memory as it is.
\<close>

definition halveImage ::
  "'p pixelType \<Rightarrow> int \<Rightarrow> ImageBitDepthEnum \<Rightarrow> int list \<Rightarrow> int \<Rightarrow> RectI
     \<Rightarrow> int list \<Rightarrow> int \<Rightarrow> RectI \<Rightarrow> 'p memory \<Rightarrow> kernel_error + 'p memory" where
  "halveImage PIX nComps bitDepth srcPtrs srcPixelStride srcBounds
       dstPtrs dstPixelStride dstBounds mem =
     (case bitDepth of
        eImageBitDepthByte \<Rightarrow>
          halveImageForDepth PIX nComps srcPtrs srcPixelStride srcBounds dstPtrs dstPixelStride dstBounds mem
      | eImageBitDepthShort \<Rightarrow>
          halveImageForDepth PIX nComps srcPtrs srcPixelStride srcBounds dstPtrs dstPixelStride dstBounds mem
      | eImageBitDepthHalf \<Rightarrow> Inr mem
      | eImageBitDepthFloat \<Rightarrow>
          halveImageForDepth PIX nComps srcPtrs srcPixelStride srcBounds dstPtrs dstPixelStride dstBounds mem
      | eImageBitDepthNone \<Rightarrow> Inr mem)"

subsection \<open>\<open>checkForNaNsInternal\<close> (lines 898-930)\<close>

text \<open>The body of the loop over the components (lines 913-921), for component \<open>k\<close>.\<close>

definition checkComponent ::
  "'p pixelType \<Rightarrow> nat \<Rightarrow> 'p kernelState \<Rightarrow> kernel_error + 'p kernelState" where
  "checkComponent PIX k s =
     (let p = dstPixelPtrs s ! k
      in case readPixel (memory s) p of
           Inl e \<Rightarrow> Inl e
         | Inr v \<Rightarrow>
             if pixNotEqual PIX v v
             then (case writePixel (memory s) p (pixOne PIX) of
                     Inl e \<Rightarrow> Inl e
                   | Inr mem' \<Rightarrow>
                       Inr (s\<lparr> memory := mem',
                               dstPixelPtrs := (dstPixelPtrs s)[k := p + 1],
                               hasnan := True \<rparr>))
             else Inr s)"

text \<open>The body of the loop over the scan lines (lines 911-927), for line \<open>y\<close>.\<close>

definition checkLine ::
  "'p pixelType \<Rightarrow> nat \<Rightarrow> int \<Rightarrow> RectI \<Rightarrow> RectI
     \<Rightarrow> int \<Rightarrow> 'p kernelState \<Rightarrow> kernel_error + 'p kernelState" where
  "checkLine PIX nComps dstPixelStride bounds roi y s =
     (let rowElementsCount = width bounds * dstPixelStride
      in case forEach [x1 roi .. x2 roi - 1]
                (\<lambda>x. forEach [0 ..< nComps] (checkComponent PIX)) s of
           Inl e \<Rightarrow> Inl e
         | Inr s' \<Rightarrow>
             forEach [0 ..< nComps]
               (\<lambda>k t. Inr (t\<lparr>
                  dstPixelPtrs := (dstPixelPtrs t)[k := dstPixelPtrs t ! k
                     + (rowElementsCount - width roi * dstPixelStride)] \<rparr>))
               s')"

definition checkForNaNsInternal ::
  "'p pixelType \<Rightarrow> nat \<Rightarrow> int list \<Rightarrow> int \<Rightarrow> RectI \<Rightarrow> RectI
     \<Rightarrow> 'p memory \<Rightarrow> kernel_error + bool \<times> 'p memory" where
  "checkForNaNsInternal PIX nComps ptrs dstPixelStride bounds roi mem =
     (case forEach [y1 roi .. y2 roi - 1]
             (checkLine PIX nComps dstPixelStride bounds roi)
             \<lparr> srcPixelPtrs = [], dstPixelPtrs = ptrs, memory = mem, hasnan = False \<rparr> of
        Inl e \<Rightarrow> Inl e
      | Inr s \<Rightarrow> Inr (hasnan s, memory s))"

text \<open>\<open>checkForNaNsForDepth\<close> (lines 932-957).\<close>

definition checkForNaNsForDepth ::
  "'p pixelType \<Rightarrow> int \<Rightarrow> int list \<Rightarrow> int \<Rightarrow> RectI \<Rightarrow> RectI
     \<Rightarrow> 'p memory \<Rightarrow> kernel_error + bool \<times> 'p memory" where
  "checkForNaNsForDepth PIX nComps ptrs dstPixelStride bounds roi mem =
     (if nComps = 1 \<or> nComps = 2 \<or> nComps = 3 \<or> nComps = 4
      then checkForNaNsInternal PIX (nat nComps) ptrs dstPixelStride bounds roi mem
      else Inr (False, mem))"

text \<open>\<open>ImagePrivate::checkForNaNs\<close> (lines 960-984).\<close>

definition checkForNaNs ::
  "'p pixelType \<Rightarrow> int \<Rightarrow> ImageBitDepthEnum \<Rightarrow> int list \<Rightarrow> int \<Rightarrow> RectI \<Rightarrow> RectI
     \<Rightarrow> 'p memory \<Rightarrow> kernel_error + bool \<times> 'p memory" where
  "checkForNaNs PIX nComps bitdepth ptrs dstPixelStride bounds roi mem =
     (case bitdepth of
        eImageBitDepthByte \<Rightarrow> checkForNaNsForDepth PIX nComps ptrs dstPixelStride bounds roi mem
      | eImageBitDepthShort \<Rightarrow> checkForNaNsForDepth PIX nComps ptrs dstPixelStride bounds roi mem
      | eImageBitDepthHalf \<Rightarrow> Inr (False, mem)
      | eImageBitDepthFloat \<Rightarrow> checkForNaNsForDepth PIX nComps ptrs dstPixelStride bounds roi mem
      | eImageBitDepthNone \<Rightarrow> Inr (False, mem))"

section \<open>\<open>ImagePrivate::initTileAndFetchFromCache\<close> (lines 33-282)\<close>

subsection \<open>The image and the local state of one channel\<close>

text \<open>
  The two ways the function leaves other than by returning: \<open>std::bad_alloc\<close> (thrown
  at line 139 and by \<open>allocateMemory\<close>), and a member call through a null shared
  pointer, which is undefined behaviour in the source and an error here. The \<open>assert\<close>s
  are compiled out of a release build and are not branches of the model.
\<close>

datatype init_error = BadAlloc | NullPointerDereference

text \<open>\<open>ImagePlaneDesc\<close>: the plane identifier and the channel names of the layer.\<close>

record ImagePlaneDesc =
  getPlaneID :: string
  getChannels :: "string list"

definition getNumComponents :: "ImagePlaneDesc \<Rightarrow> nat" where
  "getNumComponents l = length (getChannels l)"

text \<open>
  The fields of \<open>ImagePrivate\<close> the function reads. \<open>enabledChannels\<close> is the bit set
  indexed by the component number.
\<close>

record ImagePrivate =
  layer :: ImagePlaneDesc
  bufferFormat :: ImageBufferLayoutEnum
  enabledChannels :: "nat \<Rightarrow> bool"
  tileSizeX :: int
  tileSizeY :: int
  originalBounds :: RectI
  storage :: StorageModeEnum
  bitdepth :: ImageBitDepthEnum
  tilesAllocated :: bool
  cachePolicy :: CacheAccessModeEnum
  nodeHash :: nat
  proxyScale :: "real \<times> real"
  mipMapLevel :: nat
  isDraftImage :: bool

text \<open>
  \<open>thisChannelTile.buffer\<close> is a shared pointer. For disk storage line 108 makes it
  point to the object \<open>cachedBuffer\<close> points to, so that \<open>setKey\<close> through
  \<open>cachedBuffer\<close> is seen through the tile; for the other storages it points to an
  object of its own.
\<close>

datatype 'd bufferRef = TheCachedBuffer | OwnBuffer "'d ImageStorage"

text \<open>
  The local state of the loop body for one channel: the object behind \<open>cachedBuffer\<close>
  (\<open>None\<close> for a null pointer), \<open>thisChannelTile.buffer\<close>,
  \<open>thisChannelTile.entryLocker\<close>, \<open>requestedScaleLocker\<close>, \<open>isCached\<close>, the cache,
  and the keys \<open>Cache::get\<close> was called with, in the order of the calls.
\<close>

record 'd channelState =
  cachedBuffer :: "'d ImageStorage option"
  tileBuffer :: "'d bufferRef"
  tileEntryLocker :: "CacheEntryLocker option"
  requestedScaleLocker :: "CacheEntryLocker option"
  isCached :: bool
  tileCache :: "'d Cache"
  probes :: "ImageTileKey list"

text \<open>
  What the function needs from outside: whether \<open>allocateMemory\<close> throws, and the
  halving of a whole buffer that \<open>downscaleMipMap\<close> applies.
\<close>

record 'd environment =
  outOfMemory :: bool
  halveBuffer :: "'d \<Rightarrow> 'd"

subsection \<open>The channels of a tile (lines 40-56) and their names (lines 83-94)\<close>

definition channelIndicesOf :: "ImagePrivate \<Rightarrow> int list" where
  "channelIndicesOf imp =
     (case bufferFormat imp of
        eImageBufferLayoutMonoChannelTiled \<Rightarrow>
          map int (filter (enabledChannels imp) [0 ..< getNumComponents (layer imp)])
      | eImageBufferLayoutRGBACoplanarFullRect \<Rightarrow> [-1]
      | eImageBufferLayoutRGBAPackedFullRect \<Rightarrow> [-1])"

definition channelNameOf :: "ImagePrivate \<Rightarrow> int \<Rightarrow> string" where
  "channelNameOf imp index =
     (case bufferFormat imp of
        eImageBufferLayoutMonoChannelTiled \<Rightarrow>
          getPlaneID (layer imp) @ ''.'' @ getChannels (layer imp) ! nat index
      | eImageBufferLayoutRGBACoplanarFullRect \<Rightarrow> getPlaneID (layer imp)
      | eImageBufferLayoutRGBAPackedFullRect \<Rightarrow> getPlaneID (layer imp))"

subsection \<open>Allocating the entry (lines 100-152)\<close>

text \<open>
  A buffer as its constructor leaves it. Only the disk case assigns \<open>cachedBuffer\<close>
  (line 107); the texture and the RAM case leave it null.
\<close>

definition newStorage :: "StorageModeEnum \<Rightarrow> 'd ImageStorage" where
  "newStorage mode =
     \<lparr> storageMode = mode, isAllocated = False, storageKey = None, pixelData = None \<rparr>"

definition allocateNewEntry ::
  "ImagePrivate \<Rightarrow> 'd environment \<Rightarrow> 'd Cache \<Rightarrow> init_error + 'd channelState" where
  "allocateNewEntry imp env cache =
     (let allocate = (\<lambda>b. b\<lparr> isAllocated := tilesAllocated imp \<rparr>);
          start = (\<lambda>cached buf.
             if tilesAllocated imp \<and> outOfMemory env then Inl BadAlloc
             else Inr \<lparr> cachedBuffer = cached, tileBuffer = buf, tileEntryLocker = None,
                        requestedScaleLocker = None, isCached = False, tileCache = cache,
                        probes = [] \<rparr>)
      in case storage imp of
           eStorageModeDisk \<Rightarrow> start (Some (allocate (newStorage eStorageModeDisk))) TheCachedBuffer
         | eStorageModeGLTex \<Rightarrow> start None (OwnBuffer (allocate (newStorage eStorageModeGLTex)))
         | eStorageModeRAM \<Rightarrow> start None (OwnBuffer (allocate (newStorage eStorageModeRAM)))
         | eStorageModeNone \<Rightarrow> Inl BadAlloc)"

subsection \<open>The keys (lines 154-165 and 207-213)\<close>

definition tileKey :: "ImagePrivate \<Rightarrow> string \<Rightarrow> RectI \<Rightarrow> nat \<Rightarrow> bool \<Rightarrow> ImageTileKey" where
  "tileKey imp channelName bounds level draft =
     \<lparr> keyNodeHash = nodeHash imp, keyChannelName = channelName,
       keyProxyScale = proxyScale imp, keyMipMapLevel = level, keyDraft = draft,
       keyBitDepth = bitdepth imp, keyTileBounds = bounds \<rparr>"

definition requestedScaleKey :: "ImagePrivate \<Rightarrow> string \<Rightarrow> RectI \<Rightarrow> ImageTileKey" where
  "requestedScaleKey imp channelName bounds =
     tileKey imp channelName bounds (mipMapLevel imp) (isDraftImage imp)"

text \<open>\<open>cachedBuffer->setKey(key)\<close>: a member call through \<open>cachedBuffer\<close>.\<close>

definition setKey :: "ImageTileKey \<Rightarrow> 'd channelState \<Rightarrow> init_error + 'd channelState" where
  "setKey k s =
     (case cachedBuffer s of
        None \<Rightarrow> Inl NullPointerDereference
      | Some cb \<Rightarrow> Inr (s\<lparr> cachedBuffer := Some (cb\<lparr> storageKey := Some k \<rparr>) \<rparr>))"

text \<open>
  \<open>cache->get(cachedBuffer)\<close>: the probe of the key the buffer carries. The call is
  recorded in \<open>probes\<close>; when the cache reports the entry cached, the buffer holds the
  stored pixels.
\<close>

definition cacheGet :: "'d channelState \<Rightarrow> init_error + CacheEntryLocker \<times> 'd channelState" where
  "cacheGet s =
     (case cachedBuffer s of
        None \<Rightarrow> Inl NullPointerDereference
      | Some cb \<Rightarrow>
          (case storageKey cb of
             None \<Rightarrow> Inl NullPointerDereference
           | Some k \<Rightarrow>
               (let locker = Cache_get (tileCache s) k;
                    cb' = (if getStatus locker = eCacheEntryStatusCached
                           then cb\<lparr> isAllocated := True, pixelData := Cache_fetch (tileCache s) k \<rparr>
                           else cb)
                in Inr (locker, s\<lparr> cachedBuffer := Some cb', probes := probes s @ [k] \<rparr>))))"

subsection \<open>Write-only access (lines 167-174)\<close>

definition removeStaleEntry :: "ImagePrivate \<Rightarrow> 'd channelState \<Rightarrow> init_error + 'd channelState" where
  "removeStaleEntry imp s =
     (if cachePolicy imp = eCacheAccessModeWriteOnly
      then (case cacheGet s of
              Inl e \<Rightarrow> Inl e
            | Inr (locker, s') \<Rightarrow>
                if getStatus locker = eCacheEntryStatusCached
                then Inr (s'\<lparr> tileCache := Cache_removeEntry (tileCache s') (lockerKey locker) \<rparr>)
                else Inr s')
      else Inr s)"

subsection \<open>Looking in the cache (lines 176-278)\<close>

text \<open>
  The loop over the draft modes (lines 203-231) for the values of \<open>draft_i\<close> still to
  come; it leaves at the first cached entry (\<open>break\<close>, line 229).
\<close>

fun draftLookups ::
  "ImagePrivate \<Rightarrow> string \<Rightarrow> RectI \<Rightarrow> nat \<Rightarrow> nat list \<Rightarrow> 'd channelState
     \<Rightarrow> init_error + 'd channelState" where
  "draftLookups imp channelName bounds lookupLevel [] s = Inr s"
| "draftLookups imp channelName bounds lookupLevel (draft_i # rest) s =
     (let useDraft = (draft_i \<noteq> 0);
          keyToReadCache = tileKey imp channelName bounds lookupLevel useDraft
      in case setKey keyToReadCache s of
           Inl e \<Rightarrow> Inl e
         | Inr s1 \<Rightarrow>
             (case cacheGet s1 of
                Inl e \<Rightarrow> Inl e
              | Inr (locker, s2) \<Rightarrow>
                  (let s3 = s2\<lparr> tileEntryLocker := Some locker \<rparr>;
                       s4 = (if useDraft = isDraftImage imp \<and> lookupLevel = mipMapLevel imp
                             then s3\<lparr> requestedScaleLocker := Some locker \<rparr> else s3)
                   in if getStatus locker = eCacheEntryStatusCached
                      then Inr (s4\<lparr> isCached := True \<rparr>)
                      else draftLookups imp channelName bounds lookupLevel rest s4)))"

text \<open>
  Modelled from the spec: \<open>Image::create\<close> and \<open>Image::downscaleMipMap\<close> (lines 243-259)
  are not part of the sources at hand. The spec has the engine downscale the
  full-resolution hit by \<open>downscaleLevels\<close> octaves with the halve operation applied
  repeatedly; the result is a buffer of its own. The checks \<open>Image::create\<close> may make
  of the temporary view of the tile (lines 244-257) are not followed.
\<close>

definition downscaleMipMap :: "'d environment \<Rightarrow> 'd ImageStorage \<Rightarrow> nat \<Rightarrow> 'd ImageStorage" where
  "downscaleMipMap env buf downscaleLevels =
     buf\<lparr> storageKey := None,
          pixelData := map_option ((halveBuffer env) ^^ downscaleLevels) (pixelData buf) \<rparr>"

text \<open>The object \<open>thisChannelTile.buffer\<close> points to.\<close>

definition thisChannelTileBuffer :: "'d channelState \<Rightarrow> init_error + 'd ImageStorage" where
  "thisChannelTileBuffer s =
     (case tileBuffer s of
        OwnBuffer b \<Rightarrow> Inr b
      | TheCachedBuffer \<Rightarrow>
          (case cachedBuffer s of None \<Rightarrow> Inl NullPointerDereference | Some cb \<Rightarrow> Inr cb))"

text \<open>The block of lines 232-271, entered when the draft loop found a cached entry.\<close>

definition downscaleIfNeeded ::
  "ImagePrivate \<Rightarrow> 'd environment \<Rightarrow> nat \<Rightarrow> nat \<Rightarrow> 'd channelState
     \<Rightarrow> init_error + 'd channelState" where
  "downscaleIfNeeded imp env firstLookupLevel lookupLevel s =
     (if (storage imp = eStorageModeRAM \<or> storage imp = eStorageModeDisk)
           \<and> lookupLevel \<noteq> firstLookupLevel
      then (let downscaleLevels = firstLookupLevel - lookupLevel
            in case thisChannelTileBuffer s of
                 Inl e \<Rightarrow> Inl e
               | Inr b \<Rightarrow> Inr (s\<lparr> tileBuffer := OwnBuffer (downscaleMipMap env b downscaleLevels) \<rparr>))
      else Inr s)"

text \<open>
  The loop over the mip map levels (lines 196-272) for the values of \<open>mipmap_i\<close> still
  to come; it leaves after the first level with a cached entry (\<open>break\<close>, line 270).
\<close>

fun mipMapLookups ::
  "ImagePrivate \<Rightarrow> 'd environment \<Rightarrow> string \<Rightarrow> RectI \<Rightarrow> nat \<Rightarrow> nat list \<Rightarrow> 'd channelState
     \<Rightarrow> init_error + 'd channelState" where
  "mipMapLookups imp env channelName bounds firstLookupLevel [] s = Inr s"
| "mipMapLookups imp env channelName bounds firstLookupLevel (mipmap_i # rest) s =
     (let lookupLevel = (if mipmap_i = 0 then firstLookupLevel else 0);
          nDraftLookups = (if isDraftImage imp then 2 else 1)
      in case draftLookups imp channelName bounds lookupLevel [0 ..< nDraftLookups] s of
           Inl e \<Rightarrow> Inl e
         | Inr s' \<Rightarrow>
             if isCached s'
             then downscaleIfNeeded imp env firstLookupLevel lookupLevel s'
             else mipMapLookups imp env channelName bounds firstLookupLevel rest s')"

text \<open>
  The block of lines 177-278. \<open>requestedScaleLocker\<close> and \<open>isCached\<close> are declared in
  it (lines 193 and 195) and start null and \<open>false\<close>.
\<close>

definition lookInTheCache ::
  "ImagePrivate \<Rightarrow> 'd environment \<Rightarrow> string \<Rightarrow> RectI \<Rightarrow> 'd channelState
     \<Rightarrow> init_error + 'd channelState" where
  "lookInTheCache imp env channelName bounds s =
     (if cachePolicy imp = eCacheAccessModeReadWrite \<or> cachePolicy imp = eCacheAccessModeWriteOnly
      then (let nMipMapLookups =
                  (if storage imp \<noteq> eStorageModeRAM \<and> storage imp \<noteq> eStorageModeDisk then 1
                   else if mipMapLevel imp \<noteq> 0 then 2 else (1::nat));
                firstLookupLevel =
                  (if storage imp \<noteq> eStorageModeRAM \<and> storage imp \<noteq> eStorageModeDisk then 0
                   else mipMapLevel imp)
            in case mipMapLookups imp env channelName bounds firstLookupLevel
                      [0 ..< nMipMapLookups]
                      (s\<lparr> requestedScaleLocker := None, isCached := False \<rparr>) of
                 Inl e \<Rightarrow> Inl e
               | Inr s' \<Rightarrow>
                   if \<not> isCached s'
                   then (case setKey (requestedScaleKey imp channelName bounds) s' of
                           Inl e \<Rightarrow> Inl e
                         | Inr s'' \<Rightarrow> Inr (s''\<lparr> tileEntryLocker := requestedScaleLocker s'' \<rparr>))
                   else Inr s')
      else Inr s)"

subsection \<open>One channel (the body of the loop of line 78) and the whole tile\<close>

definition initChannel ::
  "ImagePrivate \<Rightarrow> 'd environment \<Rightarrow> RectI \<Rightarrow> int \<Rightarrow> 'd Cache
     \<Rightarrow> init_error + 'd channelState" where
  "initChannel imp env bounds index cache =
     (let channelName = channelNameOf imp index
      in case allocateNewEntry imp env cache of
           Inl e \<Rightarrow> Inl e
         | Inr s0 \<Rightarrow>
             (case (if cachePolicy imp \<noteq> eCacheAccessModeNone
                    then setKey (requestedScaleKey imp channelName bounds) s0
                    else Inr s0) of
                Inl e \<Rightarrow> Inl e
              | Inr s1 \<Rightarrow>
                  (case removeStaleEntry imp s1 of
                     Inl e \<Rightarrow> Inl e
                   | Inr s2 \<Rightarrow> lookInTheCache imp env channelName bounds s2)))"

text \<open>The channel tile a final channel state stands for.\<close>

definition channelTileOf :: "int \<Rightarrow> 'd channelState \<Rightarrow> init_error + 'd MonoChannelTile" where
  "channelTileOf index s =
     (case thisChannelTileBuffer s of
        Inl e \<Rightarrow> Inl e
      | Inr b \<Rightarrow> Inr \<lparr> channelIndex = index, buffer = b, entryLocker = tileEntryLocker s \<rparr>)"

text \<open>
  The loop over the channels (line 78). The result holds, per channel, the channel tile
  and the keys probed for it, and the cache after the last channel.
\<close>

fun initChannels ::
  "ImagePrivate \<Rightarrow> 'd environment \<Rightarrow> RectI \<Rightarrow> int list \<Rightarrow> 'd Cache
     \<Rightarrow> init_error + ('d MonoChannelTile list \<times> ImageTileKey list list \<times> 'd Cache)" where
  "initChannels imp env bounds [] cache = Inr ([], [], cache)"
| "initChannels imp env bounds (index # rest) cache =
     (case initChannel imp env bounds index cache of
        Inl e \<Rightarrow> Inl e
      | Inr s \<Rightarrow>
          (case channelTileOf index s of
             Inl e \<Rightarrow> Inl e
           | Inr t \<Rightarrow>
               (case initChannels imp env bounds rest (tileCache s) of
                  Inl e \<Rightarrow> Inl e
                | Inr (ts, ps, cache') \<Rightarrow> Inr (t # ts, probes s # ps, cache'))))"

definition initTileAndFetchFromCache ::
  "ImagePrivate \<Rightarrow> 'd environment \<Rightarrow> TileCoord \<Rightarrow> 'd Cache
     \<Rightarrow> init_error + ('d Tile \<times> ImageTileKey list list \<times> 'd Cache)" where
  "initTileAndFetchFromCache imp env coord cache =
     (let channelIndices = channelIndicesOf imp;
          bounds = initTileBounds (bufferFormat imp) (tileSizeX imp) (tileSizeY imp)
                     (originalBounds imp) coord
      in case initChannels imp env bounds channelIndices cache of
           Inl e \<Rightarrow> Inl e
         | Inr (ts, ps, cache') \<Rightarrow>
             Inr (\<lparr> tileBounds = bounds, perChannelTile = ts \<rparr>, ps, cache'))"

section \<open>The lookup order as the specification words it\<close>

text \<open>A key is cached: a probe of it reports \<open>eCacheEntryStatusCached\<close>.\<close>

definition isCachedIn :: "'d Cache \<Rightarrow> ImageTileKey \<Rightarrow> bool" where
  "isCachedIn cache k = (case cache k of SlotCached d \<Rightarrow> True | _ \<Rightarrow> False)"

text \<open>Probing a list of candidate keys in order and stopping at the first hit.\<close>

fun probeUntilHit :: "'d Cache \<Rightarrow> ImageTileKey list \<Rightarrow> ImageTileKey list" where
  "probeUntilHit cache [] = []"
| "probeUntilHit cache (k # ks) = k # (if isCachedIn cache k then [] else probeUntilHit cache ks)"

text \<open>
  The candidates of a RAM or disk channel: (requested level, no draft), then (requested
  level, draft) if the image is a draft, then (level 0, no draft) if the requested level
  is not 0, then (level 0, draft) if the image is a draft.
\<close>

definition fallbackCandidates :: "ImagePrivate \<Rightarrow> string \<Rightarrow> RectI \<Rightarrow> ImageTileKey list" where
  "fallbackCandidates imp channelName bounds =
     [tileKey imp channelName bounds (mipMapLevel imp) False]
     @ (if isDraftImage imp then [tileKey imp channelName bounds (mipMapLevel imp) True] else [])
     @ (if mipMapLevel imp \<noteq> 0
        then [tileKey imp channelName bounds 0 False]
             @ (if isDraftImage imp then [tileKey imp channelName bounds 0 True] else [])
        else [])"

text \<open>
  The candidates of a channel of any other storage (a texture): level 0 only, no draft
  and then draft if the image is a draft.
\<close>

definition fullScaleCandidates :: "ImagePrivate \<Rightarrow> string \<Rightarrow> RectI \<Rightarrow> ImageTileKey list" where
  "fullScaleCandidates imp channelName bounds =
     [tileKey imp channelName bounds 0 False]
     @ (if isDraftImage imp then [tileKey imp channelName bounds 0 True] else [])"

definition lookupCandidates :: "ImagePrivate \<Rightarrow> string \<Rightarrow> RectI \<Rightarrow> ImageTileKey list" where
  "lookupCandidates imp channelName bounds =
     (if storage imp = eStorageModeRAM \<or> storage imp = eStorageModeDisk
      then fallbackCandidates imp channelName bounds
      else fullScaleCandidates imp channelName bounds)"

text \<open>The cache after the write-only step: the entry at the requested key is gone.\<close>

definition cacheAfterPurge :: "ImagePrivate \<Rightarrow> string \<Rightarrow> RectI \<Rightarrow> 'd Cache \<Rightarrow> 'd Cache" where
  "cacheAfterPurge imp channelName bounds cache =
     (if cachePolicy imp = eCacheAccessModeWriteOnly
           \<and> isCachedIn cache (requestedScaleKey imp channelName bounds)
      then Cache_removeEntry cache (requestedScaleKey imp channelName bounds)
      else cache)"

text \<open>The keys one pass of the draft loop builds at a mip level, from its counter.\<close>

definition levelKeys :: "ImagePrivate \<Rightarrow> string \<Rightarrow> RectI \<Rightarrow> nat \<Rightarrow> ImageTileKey list" where
  "levelKeys imp n b lvl =
     map (\<lambda>i. tileKey imp n b lvl (i \<noteq> 0)) [0 ..< (if isDraftImage imp then 2 else 1)]"

section \<open>Parallel copy between a tiled and an untiled image (lines 499-748)\<close>











section \<open>Concrete inputs\<close>

text \<open>Small inputs on which the definitions are evaluated.\<close>

definition exampleBounds :: RectI where
  "exampleBounds = \<lparr> x1 = 0, y1 = 0, x2 = 64, y2 = 64 \<rparr>"

definition exampleKey :: "nat \<Rightarrow> bool \<Rightarrow> ImageTileKey" where
  "exampleKey level draft =
     \<lparr> keyNodeHash = 7, keyChannelName = ''Color.R'', keyProxyScale = (1, 1),
       keyMipMapLevel = level, keyDraft = draft, keyBitDepth = eImageBitDepthFloat,
       keyTileBounds = exampleBounds \<rparr>"

definition emptyCache :: "nat Cache" where
  "emptyCache = (\<lambda>k. SlotEmpty)"

definition exampleChannel :: "CacheEntryStatusEnum \<Rightarrow> nat MonoChannelTile" where
  "exampleChannel status =
     \<lparr> channelIndex = 0,
       buffer = \<lparr> storageMode = eStorageModeDisk, isAllocated = True,
                  storageKey = Some (exampleKey 0 False), pixelData = Some 5 \<rparr>,
       entryLocker = Some \<lparr> getStatus = status, lockerKey = exampleKey 0 False \<rparr> \<rparr>"

definition exampleTiles :: "(TileCoord \<times> nat Tile) list" where
  "exampleTiles =
     [(\<lparr> tx = 0, ty = 0 \<rparr>,
       \<lparr> tileBounds = exampleBounds,
         perChannelTile = [exampleChannel eCacheEntryStatusMustCompute,
                           exampleChannel eCacheEntryStatusComputationPending] \<rparr>)]"

text \<open>
  A buffer of \<open>n\<close> samples at the addresses \<open>base, ..., base + n - 1\<close>, given by its
  content; and two buffers side by side in one memory.
\<close>

definition bufferAt :: "int \<Rightarrow> 'p list \<Rightarrow> 'p memory" where
  "bufferAt base content =
     (\<lambda>p. if base \<le> p \<and> p < base + int (length content) then Some (content ! nat (p - base))
          else None)"

definition readBuffer :: "'p memory \<Rightarrow> int \<Rightarrow> nat \<Rightarrow> 'p option list" where
  "readBuffer mem base n = map (\<lambda>i. mem (base + int i)) [0 ..< n]"

text \<open>
  The 3x3 one-component byte source of constant value 200 at the addresses 0 to 8 and a
  2x2 destination at the addresses 100 to 103.
\<close>

definition constantSource :: "8 word memory" where
  "constantSource = bufferAt 0 (replicate 9 200) ++ bufferAt 100 (replicate 4 0)"

text \<open>The same source followed in memory by seven bytes of value 0 that are not part of it.\<close>

definition constantSourcePadded :: "8 word memory" where
  "constantSourcePadded = bufferAt 0 (replicate 9 200 @ replicate 7 0) ++ bufferAt 100 (replicate 4 0)"

definition rect3x3 :: RectI where
  "rect3x3 = \<lparr> x1 = 0, y1 = 0, x2 = 3, y2 = 3 \<rparr>"

definition rect2x2 :: RectI where
  "rect2x2 = \<lparr> x1 = 0, y1 = 0, x2 = 2, y2 = 2 \<rparr>"

text \<open>A float row of two samples, the second one NaN, at the addresses 0 and 1.\<close>

definition nanRow :: "float_sample memory" where
  "nanRow = bufferAt 0 [FloatFinite 1, FloatNaN]"

definition rect2x1 :: RectI where
  "rect2x1 = \<lparr> x1 = 0, y1 = 0, x2 = 2, y2 = 1 \<rparr>"

text \<open>
  A mono-channel-tiled image with the single channel \<open>Color.R\<close>, 64x64 tiles and the
  bounds of one tile; its storage, cache policy, mip level and draft flag vary. The keys
  of its tile at the origin are the \<open>exampleKey\<close>s.
\<close>

definition exampleImage ::
  "StorageModeEnum \<Rightarrow> CacheAccessModeEnum \<Rightarrow> nat \<Rightarrow> bool \<Rightarrow> ImagePrivate" where
  "exampleImage mode policy level draft =
     \<lparr> layer = \<lparr> getPlaneID = ''Color'', getChannels = [''R''] \<rparr>,
       bufferFormat = eImageBufferLayoutMonoChannelTiled,
       enabledChannels = (\<lambda>nc. True),
       tileSizeX = 64, tileSizeY = 64,
       originalBounds = exampleBounds,
       storage = mode,
       bitdepth = eImageBitDepthFloat,
       tilesAllocated = False,
       cachePolicy = policy,
       nodeHash = 7,
       proxyScale = (1, 1),
       mipMapLevel = level,
       isDraftImage = draft \<rparr>"

definition origin :: TileCoord where
  "origin = \<lparr> tx = 0, ty = 0 \<rparr>"

text \<open>Buffers hold a number; halving a buffer halves the number.\<close>

definition exampleEnvironment :: "nat environment" where
  "exampleEnvironment = \<lparr> outOfMemory = False, halveBuffer = (\<lambda>n. n div 2) \<rparr>"

text \<open>A cache that holds one entry with the pixels 40.\<close>

definition cacheWith :: "ImageTileKey \<Rightarrow> nat Cache" where
  "cacheWith k = emptyCache(k := SlotCached (Some 40))"





section \<open>Properties of cache insertion\<close>

lemma insertChannelInCache_spec:
  "insertChannelInCache ab t cache = (t', cache', ins)
   \<Longrightarrow> t' = channelAfterInsert t \<and> ins = channelIsInserted ab t"
  by (auto simp: insertChannelInCache_def channelAfterInsert_def channelIsInserted_def Let_def
           split: option.splits if_splits)

lemma insertChannelsInCache_spec:
  "insertChannelsInCache ab ts cache = (ts', cache', inss)
   \<Longrightarrow> ts' = map channelAfterInsert ts \<and> inss = map (channelIsInserted ab) ts"
proof (induction ts arbitrary: cache ts' cache' inss)
  case Nil
  then show ?case by simp
next
  case (Cons t ts)
  obtain t1 c1 i1 where step: "insertChannelInCache ab t cache = (t1, c1, i1)"
    by (cases "insertChannelInCache ab t cache") auto
  obtain ts2 c2 i2 where rest: "insertChannelsInCache ab ts c1 = (ts2, c2, i2)"
    by (cases "insertChannelsInCache ab ts c1") auto
  from Cons.prems step rest have res: "ts' = t1 # ts2" "inss = i1 # i2"
    by simp_all
  from insertChannelInCache_spec [OF step] Cons.IH [OF rest] res
  show ?case by simp
qed

lemma insertTileListInCache_spec:
  "insertTileListInCache ab tiles cache = (tiles', cache', insss)
   \<Longrightarrow> tiles' = map (\<lambda>(coord, tile).
                  (coord, tile\<lparr> perChannelTile := map channelAfterInsert (perChannelTile tile) \<rparr>))
                tiles
     \<and> insss = map (\<lambda>(coord, tile). map (channelIsInserted ab) (perChannelTile tile)) tiles"
proof (induction tiles arbitrary: cache tiles' cache' insss)
  case Nil
  then show ?case by simp
next
  case (Cons ct rest)
  obtain coord tile where ct: "ct = (coord, tile)" by (cases ct) auto
  obtain ch1 c1 i1 where step:
    "insertChannelsInCache ab (perChannelTile tile) cache = (ch1, c1, i1)"
    by (cases "insertChannelsInCache ab (perChannelTile tile) cache") auto
  obtain r2 c2 i2 where more: "insertTileListInCache ab rest c1 = (r2, c2, i2)"
    by (cases "insertTileListInCache ab rest c1") auto
  from Cons.prems ct step more
  have res: "tiles' = (coord, tile\<lparr> perChannelTile := ch1 \<rparr>) # r2" "insss = i1 # i2"
    by simp_all
  from insertChannelsInCache_spec [OF step] Cons.IH [OF more] res ct
  show ?case by simp
qed

lemma insertTilesInCache_as_map:
  "\<exists>cache'.
     insertTilesInCache renderClone tiles cache =
       (map (\<lambda>(coord, tile).
               (coord, tile\<lparr> perChannelTile := map channelAfterInsert (perChannelTile tile) \<rparr>))
            tiles,
        cache',
        map (\<lambda>(coord, tile).
               map (channelIsInserted (case renderClone of None \<Rightarrow> False | Some a \<Rightarrow> a))
                   (perChannelTile tile))
            tiles)"
proof -
  let ?ab = "case renderClone of None \<Rightarrow> False | Some a \<Rightarrow> a"
  obtain r c i where run: "insertTileListInCache ?ab tiles cache = (r, c, i)"
    by (cases "insertTileListInCache ?ab tiles cache") auto
  from insertTileListInCache_spec [OF run] run
  show ?thesis by (simp add: insertTilesInCache_def)
qed

lemma insertChannelInCache_cache:
  assumes "insertChannelInCache ab t cache = (t', cache', ins)"
  shows "cache' = cacheAfterInsertion ab [t] cache"
proof (cases "entryLocker t")
  case None
  with assms have "cache' = cache" by (simp add: insertChannelInCache_def)
  with None show ?thesis
    by (simp add: cacheAfterInsertion_def insertsAt_def fun_eq_iff)
next
  case (Some locker)
  show ?thesis
  proof (cases "channelIsInserted ab t")
    case True
    with assms Some have "cache' = cache(lockerKey locker := SlotCached (pixelData (buffer t)))"
      by (auto simp: insertChannelInCache_def channelIsInserted_def insertInCache_def Let_def)
    with True Some show ?thesis
      by (simp add: cacheAfterInsertion_def insertsAt_def fun_eq_iff)
  next
    case False
    with assms Some have "cache' = cache"
      by (auto simp: insertChannelInCache_def channelIsInserted_def Let_def)
    with False show ?thesis
      by (simp add: cacheAfterInsertion_def insertsAt_def fun_eq_iff)
  qed
qed

lemma find_in_append:
  "find P (xs @ ys) = (case find P xs of None \<Rightarrow> find P ys | Some x \<Rightarrow> Some x)"
  by (induction xs) simp_all

lemma cacheAfterInsertion_append:
  "cacheAfterInsertion ab (xs @ ys) cache = cacheAfterInsertion ab ys (cacheAfterInsertion ab xs cache)"
  by (auto simp: cacheAfterInsertion_def fun_eq_iff find_in_append split: option.splits)

lemma insertChannelsInCache_cache:
  "insertChannelsInCache ab ts cache = (ts', cache', inss)
   \<Longrightarrow> cache' = cacheAfterInsertion ab ts cache"
proof (induction ts arbitrary: cache ts' cache' inss)
  case Nil
  then show ?case by (simp add: cacheAfterInsertion_def)
next
  case (Cons t ts)
  obtain t1 c1 i1 where step: "insertChannelInCache ab t cache = (t1, c1, i1)"
    by (cases "insertChannelInCache ab t cache") auto
  obtain ts2 c2 i2 where rest: "insertChannelsInCache ab ts c1 = (ts2, c2, i2)"
    by (cases "insertChannelsInCache ab ts c1") auto
  from Cons.prems step rest have "cache' = c2" by simp
  with insertChannelInCache_cache [OF step] Cons.IH [OF rest]
       cacheAfterInsertion_append [of ab "[t]" ts cache]
  show ?case by simp
qed

lemma insertTileListInCache_cache:
  "insertTileListInCache ab tiles cache = (tiles', cache', insss)
   \<Longrightarrow> cache' = cacheAfterInsertion ab (channelsInOrder tiles) cache"
proof (induction tiles arbitrary: cache tiles' cache' insss)
  case Nil
  then show ?case by (simp add: cacheAfterInsertion_def channelsInOrder_def)
next
  case (Cons ct rest)
  obtain coord tile where ct: "ct = (coord, tile)" by (cases ct) auto
  obtain ch1 c1 i1 where step:
    "insertChannelsInCache ab (perChannelTile tile) cache = (ch1, c1, i1)"
    by (cases "insertChannelsInCache ab (perChannelTile tile) cache") auto
  obtain r2 c2 i2 where more: "insertTileListInCache ab rest c1 = (r2, c2, i2)"
    by (cases "insertTileListInCache ab rest c1") auto
  from Cons.prems ct step more have "cache' = c2" by simp
  moreover have "channelsInOrder (ct # rest) = perChannelTile tile @ channelsInOrder rest"
    by (simp add: channelsInOrder_def ct)
  ultimately show ?case
    using insertChannelsInCache_cache [OF step] Cons.IH [OF more]
    by (simp add: cacheAfterInsertion_append)
qed

lemma insertTilesInCache_cache:
  assumes "insertTilesInCache renderClone tiles cache = (tiles', cache', inserted)"
  shows "cache' = cacheAfterInsertion (renderClone = Some True) (channelsInOrder tiles) cache"
proof -
  have "(case renderClone of None \<Rightarrow> False | Some a \<Rightarrow> a) = (renderClone = Some True)"
    by (cases renderClone) auto
  with assms insertTileListInCache_cache show ?thesis
    by (simp add: insertTilesInCache_def)
qed

text \<open>
  C7. For every channel of every tile that \<open>insertTilesInCache\<close> walks (tile number
  \<open>i\<close> of the map, channel number \<open>c\<close> of the tile): a channel with no locker is left
  as it is and nothing is inserted for it; for a channel whose locker reports
  must-compute, \<open>insertInCache\<close> is called exactly when the buffer is allocated and the
  render was not aborted; for any other status nothing is inserted; and afterwards the
  locker is cleared exactly when its status is not computation-pending, a pending locker
  being retained with the channel unchanged. The cache after the call holds, under every
  key, the pixels of the last channel in walking order whose locker has that key and
  reports must-compute, whose buffer is allocated and whose render was not aborted; where
  there is no such channel it holds what it held before.
\<close>

theorem insertTilesInCache_per_channel:
  assumes run: "insertTilesInCache renderClone tiles cache = (tiles', cache', inserted)"
    and i: "i < length tiles"
    and c: "c < length (perChannelTile (snd (tiles ! i)))"
  shows "(entryLocker (perChannelTile (snd (tiles ! i)) ! c) = None \<longrightarrow>
            perChannelTile (snd (tiles' ! i)) ! c = perChannelTile (snd (tiles ! i)) ! c
            \<and> \<not> inserted ! i ! c)
       \<and> (\<forall>locker. entryLocker (perChannelTile (snd (tiles ! i)) ! c) = Some locker \<longrightarrow>
            (getStatus locker = eCacheEntryStatusMustCompute \<longrightarrow>
               (inserted ! i ! c \<longleftrightarrow>
                  isAllocated (buffer (perChannelTile (snd (tiles ! i)) ! c))
                  \<and> renderClone \<noteq> Some True))
          \<and> (getStatus locker \<noteq> eCacheEntryStatusMustCompute \<longrightarrow> \<not> inserted ! i ! c)
          \<and> (entryLocker (perChannelTile (snd (tiles' ! i)) ! c) = None \<longleftrightarrow>
               getStatus locker \<noteq> eCacheEntryStatusComputationPending)
          \<and> (getStatus locker = eCacheEntryStatusComputationPending \<longrightarrow>
               perChannelTile (snd (tiles' ! i)) ! c = perChannelTile (snd (tiles ! i)) ! c))
       \<and> (\<forall>k. cache' k =
            (case find (\<lambda>t. \<exists>locker. entryLocker t = Some locker \<and> lockerKey locker = k
                              \<and> getStatus locker = eCacheEntryStatusMustCompute
                              \<and> isAllocated (buffer t) \<and> renderClone \<noteq> Some True)
                       (rev (channelsInOrder tiles)) of
               None \<Rightarrow> cache k
             | Some t \<Rightarrow> SlotCached (pixelData (buffer t))))"
proof -
  let ?ab = "case renderClone of None \<Rightarrow> False | Some a \<Rightarrow> a"
  let ?t = "perChannelTile (snd (tiles ! i)) ! c"
  have ab: "?ab \<longleftrightarrow> renderClone = Some True"
    by (cases renderClone) auto
  obtain coord tile where ti: "tiles ! i = (coord, tile)"
    by (cases "tiles ! i") auto
  from insertTilesInCache_as_map [of renderClone tiles cache] run
  have t': "tiles' = map (\<lambda>(coord, tile).
               (coord, tile\<lparr> perChannelTile := map channelAfterInsert (perChannelTile tile) \<rparr>))
            tiles"
    and ins: "inserted = map (\<lambda>(coord, tile).
               map (channelIsInserted ?ab) (perChannelTile tile)) tiles"
    by auto
  from t' i c ti have after: "perChannelTile (snd (tiles' ! i)) ! c = channelAfterInsert ?t"
    by simp
  from ins i c ti have flag: "inserted ! i ! c = channelIsInserted ?ab ?t"
    by simp
  have pred: "insertsAt (renderClone = Some True) k =
        (\<lambda>t. \<exists>locker. entryLocker t = Some locker \<and> lockerKey locker = k
                  \<and> getStatus locker = eCacheEntryStatusMustCompute
                  \<and> isAllocated (buffer t) \<and> renderClone \<noteq> Some True)" for k
    by (auto simp: insertsAt_def channelIsInserted_def fun_eq_iff split: option.splits)
  have channels: "(entryLocker ?t = None \<longrightarrow>
            perChannelTile (snd (tiles' ! i)) ! c = ?t \<and> \<not> inserted ! i ! c)
       \<and> (\<forall>locker. entryLocker ?t = Some locker \<longrightarrow>
            (getStatus locker = eCacheEntryStatusMustCompute \<longrightarrow>
               (inserted ! i ! c \<longleftrightarrow> isAllocated (buffer ?t) \<and> renderClone \<noteq> Some True))
          \<and> (getStatus locker \<noteq> eCacheEntryStatusMustCompute \<longrightarrow> \<not> inserted ! i ! c)
          \<and> (entryLocker (perChannelTile (snd (tiles' ! i)) ! c) = None \<longleftrightarrow>
               getStatus locker \<noteq> eCacheEntryStatusComputationPending)
          \<and> (getStatus locker = eCacheEntryStatusComputationPending \<longrightarrow>
               perChannelTile (snd (tiles' ! i)) ! c = ?t))"
    unfolding after flag
    by (auto simp: channelAfterInsert_def channelIsInserted_def ab split: option.splits)
  have slots: "\<forall>k. cache' k =
            (case find (\<lambda>t. \<exists>locker. entryLocker t = Some locker \<and> lockerKey locker = k
                              \<and> getStatus locker = eCacheEntryStatusMustCompute
                              \<and> isAllocated (buffer t) \<and> renderClone \<noteq> Some True)
                       (rev (channelsInOrder tiles)) of
               None \<Rightarrow> cache k
             | Some t \<Rightarrow> SlotCached (pixelData (buffer t)))"
    using insertTilesInCache_cache [OF run]
    by (simp add: cacheAfterInsertion_def pred)
  from channels slots show ?thesis by blast
qed

text \<open>
  Two channels with the same key, the first must-compute and the second pending, both
  with allocated buffers holding the pixels 5, and an empty cache. When the render was
  not aborted the first is inserted and its locker cleared, the second is not and keeps
  its locker, and the cache holds the pixels under the key and nothing under another
  key. When the render was aborted the cache stays empty.
\<close>

theorem insertTilesInCache_per_channel_witness:
  "(snd (snd (insertTilesInCache (Some False) exampleTiles emptyCache))) ! 0 ! 0
   \<and> entryLocker (perChannelTile
         (snd (fst (insertTilesInCache (Some False) exampleTiles emptyCache) ! 0)) ! 0) = None
   \<and> \<not> (snd (snd (insertTilesInCache (Some False) exampleTiles emptyCache))) ! 0 ! 1
   \<and> entryLocker (perChannelTile
         (snd (fst (insertTilesInCache (Some False) exampleTiles emptyCache) ! 0)) ! 1) \<noteq> None
   \<and> fst (snd (insertTilesInCache (Some False) exampleTiles emptyCache)) (exampleKey 0 False)
       = SlotCached (Some 5)
   \<and> fst (snd (insertTilesInCache (Some False) exampleTiles emptyCache)) (exampleKey 1 False)
       = SlotEmpty
   \<and> fst (snd (insertTilesInCache (Some True) exampleTiles emptyCache)) (exampleKey 0 False)
       = SlotEmpty"
proof -
  obtain t' c' ins where run:
    "insertTilesInCache (Some False) exampleTiles emptyCache = (t', c', ins)"
    by (cases "insertTilesInCache (Some False) exampleTiles emptyCache") auto
  obtain ta ca ia where aborted:
    "insertTilesInCache (Some True) exampleTiles emptyCache = (ta, ca, ia)"
    by (cases "insertTilesInCache (Some True) exampleTiles emptyCache") auto
  have len: "0 < length exampleTiles" "0 < length (perChannelTile (snd (exampleTiles ! 0)))"
    "1 < length (perChannelTile (snd (exampleTiles ! 0)))"
    by (simp_all add: exampleTiles_def)
  have keys: "exampleKey 1 False \<noteq> exampleKey 0 False"
    by (simp add: exampleKey_def)
  from insertTilesInCache_per_channel [OF run len(1) len(2)]
  have first: "ins ! 0 ! 0" "entryLocker (perChannelTile (snd (t' ! 0)) ! 0) = None"
    by (simp_all add: exampleTiles_def exampleChannel_def)
  from insertTilesInCache_per_channel [OF run len(1) len(3)]
  have second: "\<not> ins ! 0 ! 1" "entryLocker (perChannelTile (snd (t' ! 0)) ! 1) \<noteq> None"
    by (simp_all add: exampleTiles_def exampleChannel_def)
  from insertTilesInCache_per_channel [OF run len(1) len(2)]
  have slots: "c' (exampleKey 0 False) = SlotCached (Some 5)" "c' (exampleKey 1 False) = SlotEmpty"
    using keys
    by (simp_all add: exampleTiles_def exampleChannel_def channelsInOrder_def emptyCache_def)
  from insertTilesInCache_per_channel [OF aborted len(1) len(2)]
  have none: "ca (exampleKey 0 False) = SlotEmpty"
    by (simp add: exampleTiles_def exampleChannel_def channelsInOrder_def emptyCache_def)
  from first second slots none show ?thesis by (simp add: run aborted)
qed

section \<open>Properties of the tile bounds\<close>

lemma div_of_cell:
  assumes T: "0 < (T::int)" and lo: "m * T \<le> x" and hi: "x < m * T + T"
  shows "x div T = m"
proof -
  define r where "r = x - m * T"
  have r: "0 \<le> r" "r < T" using lo hi by (simp_all add: r_def)
  have "x = r + m * T" by (simp add: r_def)
  then have "x div T = r div T + m" using T by simp
  with r show ?thesis by simp
qed

lemma neg_succ_div:
  assumes T: "0 < (T::int)"
  shows "(- x - 1) div T = - (x div T) - 1"
proof (rule div_of_cell [OF T])
  have a: "x = (x div T) * T + x mod T" by simp
  have b: "0 \<le> x mod T" "x mod T < T" using T by simp_all
  show "(- (x div T) - 1) * T \<le> - x - 1"
    using a b by (smt (verit) left_diff_distrib minus_mult_left mult_cancel_right2)
  show "- x - 1 < (- (x div T) - 1) * T + T"
    using a b by (smt (verit) left_diff_distrib minus_mult_left mult_cancel_right2)
qed

lemma ceil_above:
  assumes T: "0 < (T::int)" and hi: "x < hi"
  shows "x div T < - ((- hi) div T)"
proof -
  have "- hi \<le> - x - 1" using hi by simp
  then have "(- hi) div T \<le> (- x - 1) div T" using T by (rule zdiv_mono1)
  with neg_succ_div [OF T, of x] show ?thesis by simp
qed

lemma gridSteps_mem:
  assumes T: "0 < T" and lo: "lo \<le> x" and hi: "x < hi"
  shows "(x div T) * T \<in> set (gridSteps ((lo div T) * T) (- ((- hi) div T) * T) T)"
proof -
  let ?i = "nat (x div T - lo div T)"
  have mono: "lo div T \<le> x div T" using lo T by (rule zdiv_mono1)
  have width: "(- ((- hi) div T) * T - (lo div T) * T) div T = - ((- hi) div T) - lo div T"
  proof -
    have "- ((- hi) div T) * T - (lo div T) * T = (- ((- hi) div T) - lo div T) * T"
      by (simp add: algebra_simps)
    then show ?thesis using T by simp
  qed
  have "x div T - lo div T < - ((- hi) div T) - lo div T"
    using ceil_above [OF T hi] by simp
  then have bound: "?i < nat ((- ((- hi) div T) * T - (lo div T) * T) div T)"
    unfolding width using mono by linarith
  have val: "(lo div T) * T + int ?i * T = (x div T) * T"
    using mono by (simp add: algebra_simps)
  show ?thesis
    unfolding gridSteps_def using bound val by (auto simp: image_iff intro!: bexI [of _ ?i])
qed

lemma gridSteps_multiple:
  assumes "t \<in> set (gridSteps (q * T) h T)"
  shows "\<exists>m. t = m * T"
proof -
  from assms obtain i where "t = q * T + int i * T"
    by (auto simp: gridSteps_def)
  then have "t = (q + int i) * T" by (simp add: algebra_simps)
  then show ?thesis by blast
qed

lemma gridSteps_distinct: "0 < T \<Longrightarrow> distinct (gridSteps lo hi T)"
  unfolding gridSteps_def by (auto simp: distinct_map inj_on_def)

lemma tileGrid_mem:
  "coord \<in> set (tileGrid tsx tsy ob) \<longleftrightarrow>
     tx coord \<in> set (gridSteps ((x1 ob div tsx) * tsx) (- ((- x2 ob) div tsx) * tsx) tsx)
     \<and> ty coord \<in> set (gridSteps ((y1 ob div tsy) * tsy) (- ((- y2 ob) div tsy) * tsy) tsy)"
  by (cases coord) (auto simp: tileGrid_def roundToTileSize_def Let_def)

lemma concat_map_product:
  "concat (map (\<lambda>b. map (f b) as) bs) = map (\<lambda>(b, a). f b a) (List.product bs as)"
  by (induction bs) (simp_all add: comp_def)

lemma tileGrid_distinct:
  assumes "0 < tsx" "0 < tsy"
  shows "distinct (tileGrid tsx tsy ob)"
  unfolding tileGrid_def Let_def concat_map_product
  by (auto simp: distinct_map distinct_product inj_on_def
                 gridSteps_distinct [OF assms(1)] gridSteps_distinct [OF assms(2)])

lemma int32_in_range:
  "- 2147483648 \<le> v \<Longrightarrow> v \<le> 2147483647 \<Longrightarrow> int32 v = v"
  unfolding int32_def by (rule signed_take_bit_int_eq_self) simp_all

lemma gridSteps_bounds:
  assumes T: "0 < T" and m: "t \<in> set (gridSteps lo hi T)"
  shows "lo \<le> t \<and> t + T \<le> hi"
proof -
  from m have "\<exists>i. t = lo + int i * T \<and> i < nat ((hi - lo) div T)"
    unfolding gridSteps_def by (simp add: image_iff) (metis atLeastLessThan_iff)
  then obtain i where i: "t = lo + int i * T" "i < nat ((hi - lo) div T)"
    by blast
  from i(2) have "int i + 1 \<le> (hi - lo) div T" by linarith
  then have "(int i + 1) * T \<le> ((hi - lo) div T) * T"
    using T by (simp add: mult_right_mono)
  moreover have "hi - lo = ((hi - lo) div T) * T + (hi - lo) mod T" by simp
  moreover have "0 \<le> (hi - lo) mod T" using T by simp
  ultimately have "(int i + 1) * T \<le> hi - lo" by linarith
  then have "t + T \<le> hi" using i(1) by (simp add: algebra_simps)
  moreover have "lo \<le> t" using i(1) T by simp
  ultimately show ?thesis by simp
qed

lemma tileGrid_no_overflow:
  assumes T: "0 < tsx" "0 < tsy"
    and fit: "fitsInt32 (roundToTileSize tsx tsy ob)"
    and g: "coord \<in> set (tileGrid tsx tsy ob)"
  shows "int32 (tx coord + tsx) = tx coord + tsx \<and> int32 (ty coord + tsy) = ty coord + tsy"
proof -
  from g have gx: "tx coord \<in> set (gridSteps ((x1 ob div tsx) * tsx) (- ((- x2 ob) div tsx) * tsx) tsx)"
    and gy: "ty coord \<in> set (gridSteps ((y1 ob div tsy) * tsy) (- ((- y2 ob) div tsy) * tsy) tsy)"
    unfolding tileGrid_mem by simp_all
  from fit have r: "- 2147483648 \<le> (x1 ob div tsx) * tsx" "- ((- x2 ob) div tsx) * tsx \<le> 2147483647"
    "- 2147483648 \<le> (y1 ob div tsy) * tsy" "- ((- y2 ob) div tsy) * tsy \<le> 2147483647"
    by (simp_all add: fitsInt32_def roundToTileSize_def)
  from gridSteps_bounds [OF T(1) gx] r(1,2) T(1)
  have "- 2147483648 \<le> tx coord + tsx" "tx coord + tsx \<le> 2147483647" by linarith+
  moreover from gridSteps_bounds [OF T(2) gy] r(3,4) T(2)
  have "- 2147483648 \<le> ty coord + tsy" "ty coord + tsy \<le> 2147483647" by linarith+
  ultimately show ?thesis by (simp add: int32_in_range)
qed

lemma initTileBounds_contains:
  assumes "int32 (tx coord + tsx) = tx coord + tsx" and "int32 (ty coord + tsy) = ty coord + tsy"
  shows "rectContains (initTileBounds eImageBufferLayoutMonoChannelTiled tsx tsy ob coord) x y \<longleftrightarrow>
     rectContains (tileCell tsx tsy coord) x y \<and> rectContains ob x y"
  using assms by (auto simp: initTileBounds_def rectContains_def tileCell_def)

lemma tile_of_pixel_unique:
  assumes T: "0 < tsx" "0 < tsy"
    and g: "coord \<in> set (tileGrid tsx tsy ob)"
    and c: "rectContains (tileCell tsx tsy coord) x y"
  shows "coord = \<lparr> tx = (x div tsx) * tsx, ty = (y div tsy) * tsy \<rparr>"
proof -
  from g obtain mx my where m: "tx coord = mx * tsx" "ty coord = my * tsy"
    unfolding tileGrid_mem using gridSteps_multiple by blast
  from c m have "mx * tsx \<le> x" "x < mx * tsx + tsx" "my * tsy \<le> y" "y < my * tsy + tsy"
    by (simp_all add: rectContains_def tileCell_def)
  with T have "x div tsx = mx" "y div tsy = my"
    by (simp_all add: div_of_cell)
  with m show ?thesis by (cases coord) simp
qed

lemma tile_of_pixel_exists:
  assumes T: "0 < tsx" "0 < tsy" and p: "rectContains ob x y"
  shows "\<lparr> tx = (x div tsx) * tsx, ty = (y div tsy) * tsy \<rparr> \<in> set (tileGrid tsx tsy ob)"
    and "rectContains (tileCell tsx tsy \<lparr> tx = (x div tsx) * tsx, ty = (y div tsy) * tsy \<rparr>) x y"
proof -
  from p have b: "x1 ob \<le> x" "x < x2 ob" "y1 ob \<le> y" "y < y2 ob"
    by (simp_all add: rectContains_def)
  show "\<lparr> tx = (x div tsx) * tsx, ty = (y div tsy) * tsy \<rparr> \<in> set (tileGrid tsx tsy ob)"
    unfolding tileGrid_mem
    using gridSteps_mem [OF T(1) b(1) b(2)] gridSteps_mem [OF T(2) b(3) b(4)] by simp
  have "x = (x div tsx) * tsx + x mod tsx" "y = (y div tsy) * tsy + y mod tsy" by simp_all
  moreover have "0 \<le> x mod tsx" "x mod tsx < tsx" "0 \<le> y mod tsy" "y mod tsy < tsy"
    using T by simp_all
  ultimately show
    "rectContains (tileCell tsx tsy \<lparr> tx = (x div tsx) * tsx, ty = (y div tsy) * tsy \<rparr>) x y"
    unfolding rectContains_def tileCell_def by (simp, linarith)
qed

text \<open>
  C9 (as amended). For a mono-channel-tiled image with positive tile sizes whose bounds,
  rounded to the tile size, have coordinates in the range of a 32-bit \<open>int\<close>: for every tile of
  the grid, a pixel lies in the tile's \<open>tileBounds\<close> exactly when it lies in the tile's
  nominal grid cell and in \<open>originalBounds\<close> (the bounds are the intersection of the
  two); every pixel of \<open>originalBounds\<close> lies in the \<open>tileBounds\<close> of exactly one tile
  of the grid (no gap, no overlap); and the grid names no tile twice.
\<close>

theorem tileBounds_partition:
  assumes "0 < sizeX" and "0 < sizeY"
    and "fitsInt32 (roundToTileSize sizeX sizeY bounds)"
  shows "(\<forall>coord\<in>set (tileGrid sizeX sizeY bounds). \<forall>x y.
            rectContains (initTileBounds eImageBufferLayoutMonoChannelTiled
                            sizeX sizeY bounds coord) x y
            \<longleftrightarrow> rectContains (tileCell sizeX sizeY coord) x y
                \<and> rectContains bounds x y)
       \<and> (\<forall>x y. rectContains bounds x y \<longrightarrow>
            (\<exists>!coord. coord \<in> set (tileGrid sizeX sizeY bounds)
                \<and> rectContains (initTileBounds eImageBufferLayoutMonoChannelTiled
                                  sizeX sizeY bounds coord) x y))
       \<and> distinct (tileGrid sizeX sizeY bounds)"
proof (intro conjI ballI allI impI)
  fix coord x y
  assume g: "coord \<in> set (tileGrid sizeX sizeY bounds)"
  from tileGrid_no_overflow [OF assms g]
  show "rectContains (initTileBounds eImageBufferLayoutMonoChannelTiled
                            sizeX sizeY bounds coord) x y
        \<longleftrightarrow> rectContains (tileCell sizeX sizeY coord) x y
            \<and> rectContains bounds x y"
    by (simp add: initTileBounds_contains)
next
  fix x y
  assume p: "rectContains bounds x y"
  let ?c = "\<lparr> tx = (x div sizeX) * sizeX, ty = (y div sizeY) * sizeY \<rparr>"
  have inter: "rectContains (initTileBounds eImageBufferLayoutMonoChannelTiled
                            sizeX sizeY bounds coord) x y
        \<longleftrightarrow> rectContains (tileCell sizeX sizeY coord) x y \<and> rectContains bounds x y"
    if "coord \<in> set (tileGrid sizeX sizeY bounds)" for coord
    using tileGrid_no_overflow [OF assms that] by (simp add: initTileBounds_contains)
  show "\<exists>!coord. coord \<in> set (tileGrid sizeX sizeY bounds)
          \<and> rectContains (initTileBounds eImageBufferLayoutMonoChannelTiled
                            sizeX sizeY bounds coord) x y"
  proof (rule ex1I [of _ ?c])
    show "?c \<in> set (tileGrid sizeX sizeY bounds)
          \<and> rectContains (initTileBounds eImageBufferLayoutMonoChannelTiled
                            sizeX sizeY bounds ?c) x y"
      using tile_of_pixel_exists [OF assms(1,2) p] p inter by blast
  next
    fix coord
    assume a: "coord \<in> set (tileGrid sizeX sizeY bounds)
          \<and> rectContains (initTileBounds eImageBufferLayoutMonoChannelTiled
                            sizeX sizeY bounds coord) x y"
    then have "coord \<in> set (tileGrid sizeX sizeY bounds)"
      and "rectContains (tileCell sizeX sizeY coord) x y"
      using inter by blast+
    then show "coord = ?c"
      by (rule tile_of_pixel_unique [OF assms(1,2)])
  qed
next
  show "distinct (tileGrid sizeX sizeY bounds)"
    by (rule tileGrid_distinct [OF assms(1,2)])
qed

theorem tileBounds_partition_witness:
  "fitsInt32 (roundToTileSize 64 64 \<lparr> x1 = 0, y1 = 0, x2 = 100, y2 = 70 \<rparr>)
   \<and> rectContains \<lparr> x1 = 0, y1 = 0, x2 = 100, y2 = 70 \<rparr> 99 69
   \<and> (\<exists>!coord. coord \<in> set (tileGrid 64 64 \<lparr> x1 = 0, y1 = 0, x2 = 100, y2 = 70 \<rparr>)
         \<and> rectContains (initTileBounds eImageBufferLayoutMonoChannelTiled 64 64
                           \<lparr> x1 = 0, y1 = 0, x2 = 100, y2 = 70 \<rparr> coord) 99 69)
   \<and> initTileBounds eImageBufferLayoutMonoChannelTiled 64 64
         \<lparr> x1 = 0, y1 = 0, x2 = 100, y2 = 70 \<rparr> \<lparr> tx = 64, ty = 64 \<rparr>
       = \<lparr> x1 = 64, y1 = 64, x2 = 100, y2 = 70 \<rparr>
   \<and> tileGrid 64 64 \<lparr> x1 = 0, y1 = 0, x2 = 100, y2 = 70 \<rparr>
       = [\<lparr> tx = 0, ty = 0 \<rparr>, \<lparr> tx = 64, ty = 0 \<rparr>, \<lparr> tx = 0, ty = 64 \<rparr>, \<lparr> tx = 64, ty = 64 \<rparr>]
   \<and> distinct (tileGrid 64 64 \<lparr> x1 = 0, y1 = 0, x2 = 100, y2 = 70 \<rparr>)"
proof -
  have pos: "(0::int) < 64" by simp
  have fit: "fitsInt32 (roundToTileSize 64 64 \<lparr> x1 = 0, y1 = 0, x2 = 100, y2 = 70 \<rparr>)"
    by (simp add: fitsInt32_def roundToTileSize_def)
  have pix: "rectContains \<lparr> x1 = 0, y1 = 0, x2 = 100, y2 = 70 \<rparr> 99 69"
    by (simp add: rectContains_def)
  have grid: "tileGrid 64 64 \<lparr> x1 = 0, y1 = 0, x2 = 100, y2 = 70 \<rparr>
       = [\<lparr> tx = 0, ty = 0 \<rparr>, \<lparr> tx = 64, ty = 0 \<rparr>, \<lparr> tx = 0, ty = 64 \<rparr>, \<lparr> tx = 64, ty = 64 \<rparr>]"
    by (simp add: tileGrid_def roundToTileSize_def gridSteps_def Let_def upt_rec)
  have edge: "initTileBounds eImageBufferLayoutMonoChannelTiled 64 64
         \<lparr> x1 = 0, y1 = 0, x2 = 100, y2 = 70 \<rparr> \<lparr> tx = 64, ty = 64 \<rparr>
       = \<lparr> x1 = 64, y1 = 64, x2 = 100, y2 = 70 \<rparr>"
    by (simp add: initTileBounds_def int32_in_range)
  from tileBounds_partition [OF pos pos fit] pix
  have one: "\<exists>!coord. coord \<in> set (tileGrid 64 64 \<lparr> x1 = 0, y1 = 0, x2 = 100, y2 = 70 \<rparr>)
         \<and> rectContains (initTileBounds eImageBufferLayoutMonoChannelTiled 64 64
                           \<lparr> x1 = 0, y1 = 0, x2 = 100, y2 = 70 \<rparr> coord) 99 69"
    and dist: "distinct (tileGrid 64 64 \<lparr> x1 = 0, y1 = 0, x2 = 100, y2 = 70 \<rparr>)"
    by blast+
  from fit pix one edge grid dist show ?thesis by blast
qed

text \<open>
  As the specification words it the property fails for bounds at the upper end of the
  range of \<open>int\<close>. With 64x64 tiles and the bounds from 2147483600 to 2147483647 in x,
  the grid has the one tile at 2147483584; the sum \<open>coord.tx + tileSizeX\<close> of line 65 is
  2147483648, which an \<open>int\<close> does not hold; with the wrap-around the tile's bounds end
  at -2147483648 and are empty, so they are not the intersection of the grid cell with
  the bounds, and the pixel (2147483600, 0) of the bounds lies in no tile.
\<close>

theorem tileBounds_overflow:
  "rectContains \<lparr> x1 = 2147483600, y1 = 0, x2 = 2147483647, y2 = 64 \<rparr> 2147483600 0
   \<and> rectContains (tileCell 64 64 \<lparr> tx = 2147483584, ty = 0 \<rparr>) 2147483600 0
   \<and> tileGrid 64 64 \<lparr> x1 = 2147483600, y1 = 0, x2 = 2147483647, y2 = 64 \<rparr>
       = [\<lparr> tx = 2147483584, ty = 0 \<rparr>]
   \<and> initTileBounds eImageBufferLayoutMonoChannelTiled 64 64
         \<lparr> x1 = 2147483600, y1 = 0, x2 = 2147483647, y2 = 64 \<rparr> \<lparr> tx = 2147483584, ty = 0 \<rparr>
       = \<lparr> x1 = 2147483600, y1 = 0, x2 = - 2147483648, y2 = 64 \<rparr>
   \<and> \<not> (\<exists>coord\<in>set (tileGrid 64 64 \<lparr> x1 = 2147483600, y1 = 0, x2 = 2147483647, y2 = 64 \<rparr>).
          rectContains (initTileBounds eImageBufferLayoutMonoChannelTiled 64 64
             \<lparr> x1 = 2147483600, y1 = 0, x2 = 2147483647, y2 = 64 \<rparr> coord) 2147483600 0)"
  by code_simp

section \<open>Properties of the pixel kernels\<close>

subsection \<open>The halve kernel\<close>

lemma halveComponent_pointer:
  assumes "halveComponent PIX sStride dStride srcRow tc nc tr nr n 0 s = Inr s'"
    and "srcPixelPtrs s = [p]"
  shows "srcPixelPtrs s' = [p + sStride * 2]"
  using assms
  by (auto simp: halveComponent_def Let_def split: sum.splits)

lemma halvePixel_pointer:
  assumes "halvePixel PIX 1 sStride dStride srcRow srcBounds tr nr sumH x s = Inr s'"
    and "srcPixelPtrs s = [p]"
  shows "srcPixelPtrs s' = [p + sStride * 2]"
  using assms
  by (auto simp: halvePixel_def Let_def split: sum.splits dest: halveComponent_pointer)

lemma halvePixels_pointer:
  assumes "forEach xs (halvePixel PIX 1 sStride dStride srcRow srcBounds tr nr sumH) s = Inr s'"
    and "srcPixelPtrs s = [p]"
  shows "srcPixelPtrs s' = [p + sStride * 2 * int (length xs)]"
  using assms
proof (induction xs arbitrary: s p)
  case Nil
  then show ?case by simp
next
  case (Cons x xs)
  from Cons.prems(1) obtain s1 where
    one: "halvePixel PIX 1 sStride dStride srcRow srcBounds tr nr sumH x s = Inr s1"
    and more: "forEach xs (halvePixel PIX 1 sStride dStride srcRow srcBounds tr nr sumH) s1 = Inr s'"
    by (auto split: sum.splits)
  from halvePixel_pointer [OF one Cons.prems(2)] have "srcPixelPtrs s1 = [p + sStride * 2]" .
  from Cons.IH [OF more this] show ?case by (simp add: algebra_simps)
qed

text \<open>
  After a destination line of a one-component image the source pointer should stand two
  source lines below where it stood, at \<open>p + 2 * srcRowElementsCount\<close>. It stands
  \<open>dstBounds.width() * srcPixelStride\<close> elements further: the correction of line 839 takes
  back half of what the line advanced.
\<close>

lemma halveLine_source_pointer_drifts:
  assumes "halveLine PIX 1 srcPixelStride dstPixelStride srcBounds dstBounds y s = Inr s'"
    and "srcPixelPtrs s = [p]"
    and "x1 dstBounds \<le> x2 dstBounds"
  shows "srcPixelPtrs s' =
           [p + 2 * (width srcBounds * srcPixelStride) + width dstBounds * srcPixelStride]"
proof -
  let ?srcRow = "width srcBounds * srcPixelStride"
  from assms(1) obtain s1 where
    pixels: "forEach [x1 dstBounds .. x2 dstBounds - 1]
               (halvePixel PIX 1 srcPixelStride dstPixelStride ?srcRow srcBounds
                  (y1 srcBounds \<le> y * 2 + 0 \<and> y * 2 + 0 < y2 srcBounds)
                  (y1 srcBounds \<le> y * 2 + 1 \<and> y * 2 + 1 < y2 srcBounds)
                  ((if y1 srcBounds \<le> y * 2 + 1 \<and> y * 2 + 1 < y2 srcBounds then 1 else 0)
                   + (if y1 srcBounds \<le> y * 2 + 0 \<and> y * 2 + 0 < y2 srcBounds then 1 else 0))) s = Inr s1"
    and last: "s' = s1\<lparr>
        dstPixelPtrs := (dstPixelPtrs s1)[0 := dstPixelPtrs s1 ! 0
           + (width dstBounds * dstPixelStride - width dstBounds * dstPixelStride)],
        srcPixelPtrs := (srcPixelPtrs s1)[0 := srcPixelPtrs s1 ! 0
           + (?srcRow * 2 - width dstBounds * srcPixelStride)] \<rparr>"
    by (auto simp: halveLine_def Let_def split: sum.splits)
  have len: "int (length [x1 dstBounds .. x2 dstBounds - 1]) = width dstBounds"
    using assms(3) by (simp add: width_def)
  from halvePixels_pointer [OF pixels assms(2)] len
  have "srcPixelPtrs s1 = [p + srcPixelStride * 2 * width dstBounds]" by simp
  with last show ?thesis by (simp add: algebra_simps)
qed

text \<open>
  C5. The example of the specification: a 3x3 one-component byte source of constant value 200,
  halved to 2x2. The source pointer is advanced by \<open>2 * srcPixelStride\<close> per destination
  pixel, but at the end of a line only \<open>dstBounds.width() * srcPixelStride\<close> is taken
  back (line 839), so the second destination line starts at address 8 instead of 6: the
  kernel reads address 9, one past the source buffer. Where the seven bytes after the
  source are readable and hold 0, the four outputs are 200, 200, 100 and 0, not all 200.
\<close>

theorem halveImage_3x3_constant_source:
  "map_sum id (\<lambda>m. readBuffer m 100 4)
     (halveImage unsignedPixel 1 eImageBitDepthByte [0] 1 rect3x3 [100] 1 rect2x2 constantSource)
     = Inl (InvalidRead 9)
   \<and> map_sum id (\<lambda>m. readBuffer m 100 4)
     (halveImage unsignedPixel 1 eImageBitDepthByte [0] 1 rect3x3 [100] 1 rect2x2
        constantSourcePadded)
     = Inr [Some 200, Some 200, Some 100, Some 0]"
  by code_simp

subsection \<open>The NaN scan\<close>

lemma forEach_unchanged:
  "(\<And>i. i \<in> set xs \<Longrightarrow> body i s = Inr s) \<Longrightarrow> forEach xs body s = Inr s"
  by (induction xs) simp_all

lemma checkComponent_not_NaN:
  assumes "dstPixelPtrs s = [p]" and "memory s p = Some v" and "\<not> pixNotEqual PIX v v"
  shows "checkComponent PIX 0 s = Inr s"
  using assms by (simp add: checkComponent_def readPixel_def Let_def)

lemma checkLine_not_NaN:
  assumes "dstPixelPtrs s = [p]" and "memory s p = Some v" and "\<not> pixNotEqual PIX v v"
  shows "checkLine PIX 1 stride bounds bounds y s = Inr s"
proof -
  have comp: "forEach [0 ..< 1] (checkComponent PIX) s = Inr s"
    using checkComponent_not_NaN [OF assms] by simp
  have pixels: "forEach [x1 bounds .. x2 bounds - 1] (\<lambda>x. forEach [0 ..< 1] (checkComponent PIX)) s = Inr s"
    by (rule forEach_unchanged) (rule comp)
  have same: "s\<lparr> dstPixelPtrs := [p] \<rparr> = s"
    using assms(1) by simp
  show ?thesis
    using pixels assms(1) same by (simp add: checkLine_def Let_def)
qed

text \<open>
  C4. A one-component buffer scanned over its whole bounds, whose first sample is not a
  NaN: the pointer is advanced only inside the branch that found a NaN (line 918), so
  the scan tests that first sample at every pixel, replaces nothing and returns
  \<open>false\<close>, whatever NaNs the other samples hold.
\<close>

theorem checkForNaNs_stuck_on_first_sample:
  assumes "mem p = Some v" and "v \<noteq> FloatNaN"
  shows "checkForNaNs floatPixel 1 eImageBitDepthFloat [p] stride bounds bounds mem = Inr (False, mem)"
proof -
  let ?s = "\<lparr> srcPixelPtrs = [], dstPixelPtrs = [p], memory = mem, hasnan = False \<rparr>"
  have notNaN: "\<not> pixNotEqual floatPixel v v"
    using assms(2) by (simp add: floatPixel_def floatNotEqual_def)
  have "forEach [y1 bounds .. y2 bounds - 1] (checkLine floatPixel 1 stride bounds bounds) ?s = Inr ?s"
    by (rule forEach_unchanged) (rule checkLine_not_NaN [where p = p and v = v], simp_all add: assms(1) notNaN)
  then show ?thesis
    by (simp add: checkForNaNs_def checkForNaNsForDepth_def checkForNaNsInternal_def)
qed

theorem checkForNaNs_stuck_on_first_sample_witness:
  "nanRow 0 = Some (FloatFinite 1) \<and> nanRow 1 = Some FloatNaN
   \<and> checkForNaNs floatPixel 1 eImageBitDepthFloat [0] 1 rect2x1 rect2x1 nanRow = Inr (False, nanRow)"
proof -
  have a: "nanRow 0 = Some (FloatFinite 1)" and b: "nanRow 1 = Some FloatNaN"
    by (simp_all add: nanRow_def bufferAt_def)
  have c: "FloatFinite 1 \<noteq> FloatNaN" by simp
  from checkForNaNs_stuck_on_first_sample
         [where mem = nanRow and p = 0 and v = "FloatFinite 1" and stride = 1 and bounds = rect2x1, OF a c] a b
  show ?thesis by simp
qed

section \<open>Properties of the cache lookup\<close>

subsection \<open>The loops probe the candidates in order\<close>

lemma Cache_get_status:
  "getStatus (Cache_get cache k) = eCacheEntryStatusCached \<longleftrightarrow> isCachedIn cache k"
  by (simp add: Cache_get_def isCachedIn_def split: CacheSlot.splits)

lemma probeUntilHit_append:
  "probeUntilHit cache (xs @ ys) =
     (if \<exists>k\<in>set xs. isCachedIn cache k then probeUntilHit cache xs
      else xs @ probeUntilHit cache ys)"
  by (induction xs) auto

lemma draftLookups_spec:
  assumes "cachedBuffer s \<noteq> None"
  shows "\<exists>s'. draftLookups imp n b lvl ds s = Inr s'
     \<and> probes s' = probes s @ probeUntilHit (tileCache s) (map (\<lambda>i. tileKey imp n b lvl (i \<noteq> 0)) ds)
     \<and> tileCache s' = tileCache s \<and> cachedBuffer s' \<noteq> None \<and> tileBuffer s' = tileBuffer s
     \<and> (isCached s' \<longleftrightarrow> isCached s \<or> (\<exists>i\<in>set ds. isCachedIn (tileCache s) (tileKey imp n b lvl (i \<noteq> 0))))"
  using assms
proof (induction ds arbitrary: s)
  case Nil
  then show ?case by simp
next
  case (Cons i ds)
  then obtain cb where cb: "cachedBuffer s = Some cb" by auto
  let ?k = "tileKey imp n b lvl (i \<noteq> 0)"
  show ?case
  proof (cases "isCachedIn (tileCache s) ?k")
    case True
    then show ?thesis using cb
      by (simp add: setKey_def cacheGet_def Let_def Cache_get_status)
  next
    case False
    let ?s3 = "s\<lparr> cachedBuffer := Some (cb\<lparr> storageKey := Some ?k \<rparr>), probes := probes s @ [?k],
                  tileEntryLocker := Some (Cache_get (tileCache s) ?k) \<rparr>"
    let ?s4 = "if (i \<noteq> 0) = isDraftImage imp \<and> lvl = mipMapLevel imp
               then ?s3\<lparr> requestedScaleLocker := Some (Cache_get (tileCache s) ?k) \<rparr> else ?s3"
    have step: "draftLookups imp n b lvl (i # ds) s = draftLookups imp n b lvl ds ?s4"
    proof (cases "(i \<noteq> 0) = isDraftImage imp \<and> lvl = mipMapLevel imp")
      case True
      with cb False show ?thesis
        by (auto simp: setKey_def cacheGet_def Let_def Cache_get_status)
    next
      case False
      with cb \<open>\<not> isCachedIn (tileCache s) ?k\<close> show ?thesis
        by (auto simp: setKey_def cacheGet_def Let_def Cache_get_status)
    qed
    have pre: "cachedBuffer ?s4 \<noteq> None" by simp
    from Cons.IH [OF pre] obtain s' where
      "draftLookups imp n b lvl ds ?s4 = Inr s'"
      "probes s' = probes ?s4 @ probeUntilHit (tileCache ?s4) (map (\<lambda>i. tileKey imp n b lvl (i \<noteq> 0)) ds)"
      "tileCache s' = tileCache ?s4" "cachedBuffer s' \<noteq> None" "tileBuffer s' = tileBuffer ?s4"
      "isCached s' \<longleftrightarrow> isCached ?s4 \<or> (\<exists>i\<in>set ds. isCachedIn (tileCache ?s4) (tileKey imp n b lvl (i \<noteq> 0)))"
      by blast
    then show ?thesis using False step by (auto split: if_splits)
  qed
qed


lemma probeUntilHit_no_hit:
  "\<not> (\<exists>k\<in>set ks. isCachedIn cache k) \<Longrightarrow> probeUntilHit cache ks = ks"
  by (induction ks) auto

lemma downscaleIfNeeded_spec:
  assumes "cachedBuffer s \<noteq> None"
  shows "\<exists>s'. downscaleIfNeeded imp env f lvl s = Inr s'
     \<and> probes s' = probes s \<and> tileCache s' = tileCache s \<and> cachedBuffer s' = cachedBuffer s
     \<and> isCached s' = isCached s \<and> tileEntryLocker s' = tileEntryLocker s"
  using assms
  by (cases "tileBuffer s")
     (auto simp: downscaleIfNeeded_def thisChannelTileBuffer_def Let_def)

lemma mipMapLookups_spec:
  assumes "cachedBuffer s \<noteq> None" and "\<not> isCached s"
  shows "\<exists>s'. mipMapLookups imp env n b f ms s = Inr s'
     \<and> probes s' = probes s @ probeUntilHit (tileCache s)
          (concat (map (\<lambda>m. levelKeys imp n b (if m = 0 then f else 0)) ms))
     \<and> tileCache s' = tileCache s \<and> cachedBuffer s' \<noteq> None
     \<and> (isCached s' \<longleftrightarrow>
          (\<exists>k\<in>set (concat (map (\<lambda>m. levelKeys imp n b (if m = 0 then f else 0)) ms)).
             isCachedIn (tileCache s) k))"
  using assms
proof (induction ms arbitrary: s)
  case Nil
  then show ?case by simp
next
  case (Cons m ms)
  define lvl where "lvl = (if m = 0 then f else 0)"
  define ks where "ks = levelKeys imp n b lvl"
  define rest where "rest = concat (map (\<lambda>m. levelKeys imp n b (if m = 0 then f else 0)) ms)"
  have all: "concat (map (\<lambda>m. levelKeys imp n b (if m = 0 then f else 0)) (m # ms)) = ks @ rest"
    by (simp add: ks_def rest_def lvl_def)
  from draftLookups_spec [OF Cons.prems(1), of imp n b lvl "[0 ..< (if isDraftImage imp then 2 else 1)]"]
  obtain s1 where d:
    "draftLookups imp n b lvl [0 ..< (if isDraftImage imp then 2 else 1)] s = Inr s1"
    "probes s1 = probes s @ probeUntilHit (tileCache s) ks"
    "tileCache s1 = tileCache s" "cachedBuffer s1 \<noteq> None"
    "isCached s1 \<longleftrightarrow> (\<exists>k\<in>set ks. isCachedIn (tileCache s) k)"
    using Cons.prems(2) unfolding levelKeys_def ks_def by auto
  show ?case
  proof (cases "isCached s1")
    case True
    from downscaleIfNeeded_spec [OF d(4), of imp env f lvl] obtain s' where ds:
      "downscaleIfNeeded imp env f lvl s1 = Inr s'" "probes s' = probes s1"
      "tileCache s' = tileCache s1" "cachedBuffer s' = cachedBuffer s1" "isCached s' = isCached s1"
      by blast
    have run: "mipMapLookups imp env n b f (m # ms) s = Inr s'"
      using d(1) True ds(1) by (simp add: Let_def lvl_def)
    have hit: "probeUntilHit (tileCache s) (ks @ rest) = probeUntilHit (tileCache s) ks"
      using True d(5) by (simp add: probeUntilHit_append)
    have p: "probes s' = probes s @ probeUntilHit (tileCache s) (ks @ rest)"
      using ds(2) d(2) hit by simp
    have c: "isCached s' \<longleftrightarrow> (\<exists>k\<in>set (ks @ rest). isCachedIn (tileCache s) k)"
      using ds(5) True d(5) by auto
    show ?thesis
      unfolding all using run p c ds(3) ds(4) d(3) d(4) by simp
  next
    case False
    have step: "mipMapLookups imp env n b f (m # ms) s = mipMapLookups imp env n b f ms s1"
      using d(1) False by (simp add: Let_def lvl_def)
    from Cons.IH [OF d(4) False] obtain s' where r:
      "mipMapLookups imp env n b f ms s1 = Inr s'"
      "probes s' = probes s1 @ probeUntilHit (tileCache s1) rest"
      "tileCache s' = tileCache s1" "cachedBuffer s' \<noteq> None"
      "isCached s' \<longleftrightarrow> (\<exists>k\<in>set rest. isCachedIn (tileCache s1) k)"
      unfolding rest_def by blast
    have e1: "probeUntilHit (tileCache s) (ks @ rest) = ks @ probeUntilHit (tileCache s) rest"
      using False d(5) by (simp add: probeUntilHit_append)
    have e2: "probeUntilHit (tileCache s) ks = ks"
      using False d(5) by (simp add: probeUntilHit_no_hit)
    have p: "probes s' = probes s @ probeUntilHit (tileCache s) (ks @ rest)"
      using r(2) d(2) d(3) e1 e2 by simp
    have c: "isCached s' \<longleftrightarrow> (\<exists>k\<in>set (ks @ rest). isCachedIn (tileCache s) k)"
      using r(5) d(3) d(5) False by auto
    show ?thesis
      unfolding all using step r(1) p c r(3) r(4) d(3) by simp
  qed
qed

lemma upt_0_2: "[0 ..< 2] = [0, 1]"
  by (simp add: numeral_2_eq_2)

lemma lookup_keys_eq:
  "concat (map (\<lambda>m. levelKeys imp n b (if m = 0 then
       (if storage imp \<noteq> eStorageModeRAM \<and> storage imp \<noteq> eStorageModeDisk then 0 else mipMapLevel imp)
       else 0))
     [0 ..< (if storage imp \<noteq> eStorageModeRAM \<and> storage imp \<noteq> eStorageModeDisk then 1
             else if mipMapLevel imp \<noteq> 0 then 2 else (1::nat))])
   = lookupCandidates imp n b"
  by (simp add: lookupCandidates_def fallbackCandidates_def fullScaleCandidates_def levelKeys_def
                upt_0_2)

lemma lookInTheCache_spec:
  assumes "cachedBuffer s \<noteq> None"
    and "cachePolicy imp = eCacheAccessModeReadWrite \<or> cachePolicy imp = eCacheAccessModeWriteOnly"
  shows "\<exists>s'. lookInTheCache imp env n b s = Inr s'
     \<and> probes s' = probes s @ probeUntilHit (tileCache s) (lookupCandidates imp n b)
     \<and> tileCache s' = tileCache s
     \<and> (isCached s' \<longleftrightarrow> (\<exists>k\<in>set (lookupCandidates imp n b). isCachedIn (tileCache s) k))"
proof -
  let ?f = "if storage imp \<noteq> eStorageModeRAM \<and> storage imp \<noteq> eStorageModeDisk then 0 else mipMapLevel imp"
  let ?ms = "[0 ..< (if storage imp \<noteq> eStorageModeRAM \<and> storage imp \<noteq> eStorageModeDisk then 1
             else if mipMapLevel imp \<noteq> 0 then 2 else (1::nat))]"
  let ?s0 = "s\<lparr> requestedScaleLocker := None, isCached := False \<rparr>"
  have start: "cachedBuffer ?s0 \<noteq> None" "\<not> isCached ?s0"
    using assms(1) by simp_all
  from mipMapLookups_spec [OF start, of imp env n b ?f ?ms]
  obtain s1 where m:
    "mipMapLookups imp env n b ?f ?ms ?s0 = Inr s1"
    "probes s1 = probes s @ probeUntilHit (tileCache s) (lookupCandidates imp n b)"
    "tileCache s1 = tileCache s" "cachedBuffer s1 \<noteq> None"
    "isCached s1 \<longleftrightarrow> (\<exists>k\<in>set (lookupCandidates imp n b). isCachedIn (tileCache s) k)"
    unfolding lookup_keys_eq by auto
  from m(4) obtain cb where cb: "cachedBuffer s1 = Some cb" by auto
  show ?thesis
  proof (cases "isCached s1")
    case True
    then have "lookInTheCache imp env n b s = Inr s1"
      using assms(2) m(1) by (simp add: lookInTheCache_def Let_def)
    with m True show ?thesis by simp
  next
    case False
    let ?s2 = "s1\<lparr> cachedBuffer := Some (cb\<lparr> storageKey := Some (requestedScaleKey imp n b) \<rparr>) \<rparr>"
    have "lookInTheCache imp env n b s = Inr (?s2\<lparr> tileEntryLocker := requestedScaleLocker ?s2 \<rparr>)"
      using assms(2) m(1) False cb by (simp add: lookInTheCache_def Let_def setKey_def)
    with m False show ?thesis by simp
  qed
qed

subsection \<open>The null cache handle\<close>

lemma initChannel_null_cachedBuffer:
  assumes "cachePolicy imp \<noteq> eCacheAccessModeNone"
    and "storage imp = eStorageModeRAM \<or> storage imp = eStorageModeGLTex"
    and "\<not> (tilesAllocated imp \<and> outOfMemory env)"
  shows "initChannel imp env bounds index cache = Inl NullPointerDereference"
  using assms
  by (auto simp: initChannel_def allocateNewEntry_def setKey_def Let_def)

lemma initTile_null_cachedBuffer:
  assumes "cachePolicy imp \<noteq> eCacheAccessModeNone"
    and "storage imp = eStorageModeRAM \<or> storage imp = eStorageModeGLTex"
    and "\<not> (tilesAllocated imp \<and> outOfMemory env)"
    and "channelIndicesOf imp \<noteq> []"
  shows "initTileAndFetchFromCache imp env coord cache = Inl NullPointerDereference"
proof -
  from assms(4) obtain index rest where "channelIndicesOf imp = index # rest"
    by (cases "channelIndicesOf imp") auto
  then show ?thesis
    using initChannel_null_cachedBuffer [OF assms(1-3)]
    by (simp add: initTileAndFetchFromCache_def Let_def)
qed

lemma exampleImage_channels: "channelIndicesOf (exampleImage mode policy level draft) = [0]"
  by (simp add: channelIndicesOf_def exampleImage_def getNumComponents_def)

text \<open>
  C10. The handle \<open>cachedBuffer\<close> is null for RAM and texture storage: whenever the cache
  policy is not None, memory is available and the tile has a channel, the call on such
  an image ends in the dereference of a null pointer at the first \<open>setKey\<close> (line 164).
\<close>

theorem cachedBuffer_null_for_RAM_and_GLTex:
  assumes "cachePolicy imp \<noteq> eCacheAccessModeNone"
    and "storage imp = eStorageModeRAM \<or> storage imp = eStorageModeGLTex"
    and "\<not> (tilesAllocated imp \<and> outOfMemory env)"
    and "channelIndicesOf imp \<noteq> []"
  shows "initTileAndFetchFromCache imp env coord cache = Inl NullPointerDereference"
  using assms by (rule initTile_null_cachedBuffer)

theorem cachedBuffer_null_for_RAM_and_GLTex_witness:
  "initTileAndFetchFromCache (exampleImage eStorageModeGLTex eCacheAccessModeReadWrite 0 False)
     exampleEnvironment origin emptyCache = Inl NullPointerDereference
   \<and> initTileAndFetchFromCache (exampleImage eStorageModeRAM eCacheAccessModeReadWrite 0 False)
     exampleEnvironment origin emptyCache = Inl NullPointerDereference"
proof -
  have a: "cachePolicy (exampleImage mode eCacheAccessModeReadWrite 0 False) \<noteq> eCacheAccessModeNone"
    for mode by (simp add: exampleImage_def)
  have b: "\<not> (tilesAllocated (exampleImage mode eCacheAccessModeReadWrite 0 False)
               \<and> outOfMemory exampleEnvironment)" for mode
    by (simp add: exampleImage_def)
  have c: "channelIndicesOf (exampleImage mode eCacheAccessModeReadWrite 0 False) \<noteq> []" for mode
    by (simp add: exampleImage_channels)
  have g: "storage (exampleImage eStorageModeGLTex eCacheAccessModeReadWrite 0 False) = eStorageModeRAM
         \<or> storage (exampleImage eStorageModeGLTex eCacheAccessModeReadWrite 0 False) = eStorageModeGLTex"
    by (simp add: exampleImage_def)
  have r: "storage (exampleImage eStorageModeRAM eCacheAccessModeReadWrite 0 False) = eStorageModeRAM
         \<or> storage (exampleImage eStorageModeRAM eCacheAccessModeReadWrite 0 False) = eStorageModeGLTex"
    by (simp add: exampleImage_def)
  from cachedBuffer_null_for_RAM_and_GLTex [OF a g b c]
       cachedBuffer_null_for_RAM_and_GLTex [OF a r b c]
  show ?thesis by blast
qed

text \<open>
  C1. A RAM image with read-write cache access, requested at mip level 1 as a draft: the
  call ends in the dereference of the null \<open>cachedBuffer\<close> before any key is probed.
\<close>

theorem RAM_lookup_never_probes:
  "initTileAndFetchFromCache (exampleImage eStorageModeRAM eCacheAccessModeReadWrite 1 True)
     exampleEnvironment origin emptyCache = Inl NullPointerDereference"
  by (rule initTile_null_cachedBuffer)
     (simp_all add: exampleImage_def exampleEnvironment_def exampleImage_channels [unfolded exampleImage_def])

text \<open>
  C3. A RAM image with read-write cache access, requested at mip level 2, whose tile is
  cached at mip level 0 only: the call ends in the dereference of the null
  \<open>cachedBuffer\<close>; no halved pixels are produced.
\<close>

theorem RAM_fallback_never_downscales:
  "initTileAndFetchFromCache (exampleImage eStorageModeRAM eCacheAccessModeReadWrite 2 False)
     exampleEnvironment origin (cacheWith (exampleKey 0 False)) = Inl NullPointerDereference"
  by (rule initTile_null_cachedBuffer)
     (simp_all add: exampleImage_def exampleEnvironment_def exampleImage_channels [unfolded exampleImage_def])

text \<open>
  C6. A RAM image with write-only cache access whose tile is cached at the exact
  requested key: the call ends in the dereference of the null \<open>cachedBuffer\<close> before the
  probe of line 170 and the removal of line 172; the entry is still in the cache.
\<close>

theorem RAM_writeonly_never_removes:
  "initTileAndFetchFromCache (exampleImage eStorageModeRAM eCacheAccessModeWriteOnly 1 True)
     exampleEnvironment origin (cacheWith (exampleKey 1 True)) = Inl NullPointerDereference
   \<and> requestedScaleKey (exampleImage eStorageModeRAM eCacheAccessModeWriteOnly 1 True)
        ''Color.R'' exampleBounds = exampleKey 1 True
   \<and> getStatus (Cache_get (cacheWith (exampleKey 1 True)) (exampleKey 1 True))
       = eCacheEntryStatusCached"
proof (intro conjI)
  show "initTileAndFetchFromCache (exampleImage eStorageModeRAM eCacheAccessModeWriteOnly 1 True)
     exampleEnvironment origin (cacheWith (exampleKey 1 True)) = Inl NullPointerDereference"
    by (rule initTile_null_cachedBuffer)
       (simp_all add: exampleImage_def exampleEnvironment_def
                      exampleImage_channels [unfolded exampleImage_def])
  show "requestedScaleKey (exampleImage eStorageModeRAM eCacheAccessModeWriteOnly 1 True)
        ''Color.R'' exampleBounds = exampleKey 1 True"
    by (simp add: requestedScaleKey_def tileKey_def exampleImage_def exampleKey_def)
  show "getStatus (Cache_get (cacheWith (exampleKey 1 True)) (exampleKey 1 True))
       = eCacheEntryStatusCached"
    by (simp add: Cache_get_def cacheWith_def)
qed

subsection \<open>Texture storage\<close>

text \<open>
  C2. A texture image with read-write cache access, requested at mip level 1: the call
  ends in the dereference of the null \<open>cachedBuffer\<close> at line 164, before the lookup of
  lines 176-278; no key is probed, at the requested mip level or at any other.
\<close>

theorem texture_lookup_never_reached:
  "initTileAndFetchFromCache (exampleImage eStorageModeGLTex eCacheAccessModeReadWrite 1 False)
     exampleEnvironment origin emptyCache = Inl NullPointerDereference"
  by (rule initTile_null_cachedBuffer)
     (simp_all add: exampleImage_def exampleEnvironment_def
                    exampleImage_channels [unfolded exampleImage_def])

subsection \<open>Disk storage: the whole channel\<close>

lemma isCachedIn_removeEntry [simp]: "\<not> isCachedIn (Cache_removeEntry cache k) k"
  by (simp add: isCachedIn_def Cache_removeEntry_def)

lemma lockerKey_Cache_get [simp]: "lockerKey (Cache_get cache k) = k"
  by (simp add: Cache_get_def)

lemma removeStaleEntry_spec:
  assumes "cachedBuffer s = Some cb" and "storageKey cb = Some k"
  shows "\<exists>s'. removeStaleEntry imp s = Inr s'
     \<and> probes s' = probes s @ (if cachePolicy imp = eCacheAccessModeWriteOnly then [k] else [])
     \<and> tileCache s' = (if cachePolicy imp = eCacheAccessModeWriteOnly \<and> isCachedIn (tileCache s) k
                        then Cache_removeEntry (tileCache s) k else tileCache s)
     \<and> cachedBuffer s' \<noteq> None \<and> isCached s' = isCached s \<and> tileBuffer s' = tileBuffer s"
  using assms
  by (auto simp: removeStaleEntry_def cacheGet_def Let_def Cache_get_status)

text \<open>
  For disk storage and a cache policy other than None the channel is initialised without
  error; the keys probed are the requested key once if the policy is write-only, then the
  fallback candidates in their order up to the first hit; the cache is left as the
  write-only step left it.
\<close>

lemma initChannel_disk:
  assumes "storage imp = eStorageModeDisk"
    and "cachePolicy imp = eCacheAccessModeReadWrite \<or> cachePolicy imp = eCacheAccessModeWriteOnly"
    and "\<not> (tilesAllocated imp \<and> outOfMemory env)"
  shows "\<exists>s. initChannel imp env bounds index cache = Inr s
     \<and> probes s =
         (if cachePolicy imp = eCacheAccessModeWriteOnly
          then [requestedScaleKey imp (channelNameOf imp index) bounds] else [])
         @ probeUntilHit (cacheAfterPurge imp (channelNameOf imp index) bounds cache)
             (fallbackCandidates imp (channelNameOf imp index) bounds)
     \<and> tileCache s = cacheAfterPurge imp (channelNameOf imp index) bounds cache
     \<and> (isCached s \<longleftrightarrow>
          (\<exists>k\<in>set (fallbackCandidates imp (channelNameOf imp index) bounds).
             isCachedIn (cacheAfterPurge imp (channelNameOf imp index) bounds cache) k))"
proof -
  let ?n = "channelNameOf imp index"
  let ?rk = "requestedScaleKey imp ?n bounds"
  let ?cb = "(newStorage eStorageModeDisk :: 'a ImageStorage)\<lparr> isAllocated := tilesAllocated imp \<rparr>"
  let ?s0 = "\<lparr> cachedBuffer = Some ?cb, tileBuffer = TheCachedBuffer, tileEntryLocker = None,
               requestedScaleLocker = None, isCached = False, tileCache = cache, probes = [] \<rparr>"
  let ?s1 = "?s0\<lparr> cachedBuffer := Some (?cb\<lparr> storageKey := Some ?rk \<rparr>) \<rparr>"
  have alloc: "allocateNewEntry imp env cache = Inr ?s0"
    using assms(1,3) by (auto simp: allocateNewEntry_def Let_def)
  have key: "setKey ?rk ?s0 = Inr ?s1"
    by (simp add: setKey_def)
  have pol: "cachePolicy imp \<noteq> eCacheAccessModeNone" using assms(2) by auto
  from removeStaleEntry_spec [of ?s1 "?cb\<lparr> storageKey := Some ?rk \<rparr>" ?rk imp]
  obtain s2 where r: "removeStaleEntry imp ?s1 = Inr s2"
    "probes s2 = (if cachePolicy imp = eCacheAccessModeWriteOnly then [?rk] else [])"
    "tileCache s2 = cacheAfterPurge imp ?n bounds cache"
    "cachedBuffer s2 \<noteq> None" "\<not> isCached s2"
    by (auto simp: cacheAfterPurge_def)
  from lookInTheCache_spec [OF r(4) assms(2), of env ?n bounds]
  obtain s3 where l: "lookInTheCache imp env ?n bounds s2 = Inr s3"
    "probes s3 = probes s2 @ probeUntilHit (tileCache s2) (lookupCandidates imp ?n bounds)"
    "tileCache s3 = tileCache s2"
    "isCached s3 \<longleftrightarrow> (\<exists>k\<in>set (lookupCandidates imp ?n bounds). isCachedIn (tileCache s2) k)"
    by blast
  have cand: "lookupCandidates imp ?n bounds = fallbackCandidates imp ?n bounds"
    using assms(1) by (simp add: lookupCandidates_def)
  have "initChannel imp env bounds index cache = Inr s3"
    using alloc key pol r(1) l(1) by (simp add: initChannel_def Let_def)
  with l r cand show ?thesis by simp
qed

text \<open>
  With write-only access on disk storage an entry at the exact requested key is removed:
  after the call a probe of that key reports must-compute.
\<close>

lemma initChannel_disk_writeOnly_removes:
  assumes "storage imp = eStorageModeDisk"
    and "cachePolicy imp = eCacheAccessModeWriteOnly"
    and "\<not> (tilesAllocated imp \<and> outOfMemory env)"
    and "isCachedIn cache (requestedScaleKey imp (channelNameOf imp index) bounds)"
  shows "\<exists>s. initChannel imp env bounds index cache = Inr s
     \<and> tileCache s = Cache_removeEntry cache (requestedScaleKey imp (channelNameOf imp index) bounds)
     \<and> getStatus (Cache_get (tileCache s) (requestedScaleKey imp (channelNameOf imp index) bounds))
         = eCacheEntryStatusMustCompute"
proof -
  from initChannel_disk [OF assms(1) _ assms(3), of bounds index cache] assms(2)
  obtain s where "initChannel imp env bounds index cache = Inr s"
    "tileCache s = cacheAfterPurge imp (channelNameOf imp index) bounds cache"
    by auto
  then show ?thesis using assms(2,4)
    by (simp add: cacheAfterPurge_def Cache_removeEntry_def Cache_get_def)
qed


lemma draftLookups_hit:
  assumes "cachedBuffer s \<noteq> None"
    and "find (isCachedIn (tileCache s)) (map (\<lambda>i. tileKey imp n b lvl (i \<noteq> 0)) ds) = Some k"
  shows "\<exists>s' cb'. draftLookups imp n b lvl ds s = Inr s'
     \<and> cachedBuffer s' = Some cb' \<and> pixelData cb' = Cache_fetch (tileCache s) k
     \<and> tileEntryLocker s' = Some (Cache_get (tileCache s) k)
     \<and> isCached s' \<and> tileBuffer s' = tileBuffer s \<and> tileCache s' = tileCache s"
  using assms
proof (induction ds arbitrary: s)
  case Nil
  then show ?case by simp
next
  case (Cons i ds)
  then obtain cb where cb: "cachedBuffer s = Some cb" by auto
  let ?k = "tileKey imp n b lvl (i \<noteq> 0)"
  show ?case
  proof (cases "isCachedIn (tileCache s) ?k")
    case True
    with Cons.prems(2) have "k = ?k" by simp
    with True cb show ?thesis
      by (auto simp: setKey_def cacheGet_def Let_def Cache_get_status)
  next
    case False
    let ?s3 = "s\<lparr> cachedBuffer := Some (cb\<lparr> storageKey := Some ?k \<rparr>), probes := probes s @ [?k],
                  tileEntryLocker := Some (Cache_get (tileCache s) ?k) \<rparr>"
    let ?s4 = "if (i \<noteq> 0) = isDraftImage imp \<and> lvl = mipMapLevel imp
               then ?s3\<lparr> requestedScaleLocker := Some (Cache_get (tileCache s) ?k) \<rparr> else ?s3"
    have step: "draftLookups imp n b lvl (i # ds) s = draftLookups imp n b lvl ds ?s4"
    proof (cases "(i \<noteq> 0) = isDraftImage imp \<and> lvl = mipMapLevel imp")
      case True
      with cb False show ?thesis
        by (auto simp: setKey_def cacheGet_def Let_def Cache_get_status)
    next
      case False
      with cb \<open>\<not> isCachedIn (tileCache s) ?k\<close> show ?thesis
        by (auto simp: setKey_def cacheGet_def Let_def Cache_get_status)
    qed
    have pre: "cachedBuffer ?s4 \<noteq> None" by simp
    have same: "tileCache ?s4 = tileCache s" "tileBuffer ?s4 = tileBuffer s" by simp_all
    have found0: "find (isCachedIn (tileCache s)) (map (\<lambda>i. tileKey imp n b lvl (i \<noteq> 0)) ds) = Some k"
      using Cons.prems(2) False by simp
    have found: "find (isCachedIn (tileCache ?s4)) (map (\<lambda>i. tileKey imp n b lvl (i \<noteq> 0)) ds) = Some k"
      unfolding same(1) by (rule found0)
    from Cons.IH [OF pre found] show ?thesis
      unfolding step same by blast
  qed
qed

text \<open>
  On disk storage, when no candidate of the requested mip level \<open>L > 0\<close> is cached and a
  candidate of mip level 0 is, the channel's buffer holds the pixels of the first cached
  level-0 candidate halved \<open>L\<close> times, and its locker is the one of that candidate.
\<close>

lemma initChannel_disk_downscales:
  assumes disk: "storage imp = eStorageModeDisk"
    and pol: "cachePolicy imp = eCacheAccessModeReadWrite \<or> cachePolicy imp = eCacheAccessModeWriteOnly"
    and mem: "\<not> (tilesAllocated imp \<and> outOfMemory env)"
    and lvl: "mipMapLevel imp \<noteq> 0"
    and miss: "\<forall>k\<in>set (levelKeys imp (channelNameOf imp index) bounds (mipMapLevel imp)).
                 \<not> isCachedIn (cacheAfterPurge imp (channelNameOf imp index) bounds cache) k"
    and hit: "find (isCachedIn (cacheAfterPurge imp (channelNameOf imp index) bounds cache))
                (levelKeys imp (channelNameOf imp index) bounds 0) = Some k0"
  shows "\<exists>s t. initChannel imp env bounds index cache = Inr s
     \<and> channelTileOf index s = Inr t
     \<and> pixelData (buffer t) =
         map_option ((halveBuffer env) ^^ mipMapLevel imp)
           (Cache_fetch (cacheAfterPurge imp (channelNameOf imp index) bounds cache) k0)
     \<and> entryLocker t = Some (Cache_get (cacheAfterPurge imp (channelNameOf imp index) bounds cache) k0)"
proof -
  let ?n = "channelNameOf imp index"
  let ?rk = "requestedScaleKey imp ?n bounds"
  let ?c = "cacheAfterPurge imp ?n bounds cache"
  let ?cb = "(newStorage eStorageModeDisk :: 'a ImageStorage)\<lparr> isAllocated := tilesAllocated imp \<rparr>"
  let ?s0 = "\<lparr> cachedBuffer = Some ?cb, tileBuffer = TheCachedBuffer, tileEntryLocker = None,
               requestedScaleLocker = None, isCached = False, tileCache = cache, probes = [] \<rparr>"
  let ?s1 = "?s0\<lparr> cachedBuffer := Some (?cb\<lparr> storageKey := Some ?rk \<rparr>) \<rparr>"
  let ?nd = "if isDraftImage imp then 2 else (1::nat)"
  have alloc: "allocateNewEntry imp env cache = Inr ?s0"
    using disk mem by (auto simp: allocateNewEntry_def Let_def)
  have key: "setKey ?rk ?s0 = Inr ?s1"
    by (simp add: setKey_def)
  have notNone: "cachePolicy imp \<noteq> eCacheAccessModeNone" using pol by auto
  from removeStaleEntry_spec [of ?s1 "?cb\<lparr> storageKey := Some ?rk \<rparr>" ?rk imp]
  obtain s2 where r: "removeStaleEntry imp ?s1 = Inr s2" "tileCache s2 = ?c"
    "cachedBuffer s2 \<noteq> None" "\<not> isCached s2" "tileBuffer s2 = TheCachedBuffer"
    by (auto simp: cacheAfterPurge_def)
  \<comment> \<open>first pass of the mip map loop: the requested level, no hit\<close>
  define t where "t = s2\<lparr> requestedScaleLocker := None, isCached := False \<rparr>"
  have t: "cachedBuffer t \<noteq> None" "tileCache t = ?c" "tileBuffer t = TheCachedBuffer" "\<not> isCached t"
    using r by (simp_all add: t_def)
  from draftLookups_spec [OF t(1), of imp ?n bounds "mipMapLevel imp" "[0 ..< ?nd]"]
  obtain s3 where d1: "draftLookups imp ?n bounds (mipMapLevel imp) [0 ..< ?nd] t = Inr s3"
    "tileCache s3 = ?c" "cachedBuffer s3 \<noteq> None" "tileBuffer s3 = TheCachedBuffer"
    "isCached s3 \<longleftrightarrow> (\<exists>k\<in>set (levelKeys imp ?n bounds (mipMapLevel imp)). isCachedIn ?c k)"
    using t(2,3,4) unfolding levelKeys_def by auto
  from d1(5) miss have nohit: "\<not> isCached s3" by simp
  \<comment> \<open>second pass: level 0, a hit\<close>
  have found: "find (isCachedIn (tileCache s3)) (map (\<lambda>i. tileKey imp ?n bounds 0 (i \<noteq> 0)) [0 ..< ?nd])
                 = Some k0"
    using hit d1(2) by (simp add: levelKeys_def)
  from draftLookups_hit [OF d1(3) found]
  obtain s4 cb4 where d2: "draftLookups imp ?n bounds 0 [0 ..< ?nd] s3 = Inr s4"
    "cachedBuffer s4 = Some cb4" "pixelData cb4 = Cache_fetch ?c k0"
    "tileEntryLocker s4 = Some (Cache_get ?c k0)" "isCached s4" "tileBuffer s4 = TheCachedBuffer"
    using d1(2,4) by auto
  let ?s5 = "s4\<lparr> tileBuffer := OwnBuffer (downscaleMipMap env cb4 (mipMapLevel imp - 0)) \<rparr>"
  have down: "downscaleIfNeeded imp env (mipMapLevel imp) 0 s4 = Inr ?s5"
    using disk lvl d2(2,6) by (simp add: downscaleIfNeeded_def thisChannelTileBuffer_def Let_def)
  have loop: "mipMapLookups imp env ?n bounds (mipMapLevel imp) [0, 1] t = Inr ?s5"
    using d1(1) nohit d2(1,5) down by (simp add: Let_def)
  have look: "lookInTheCache imp env ?n bounds s2 = Inr ?s5"
    using pol disk lvl loop d2(5) unfolding t_def
    by (simp add: lookInTheCache_def Let_def upt_0_2)
  have run: "initChannel imp env bounds index cache = Inr ?s5"
    using alloc key notNone r(1) look by (simp add: initChannel_def Let_def)
  have tile: "channelTileOf index ?s5 =
      Inr \<lparr> channelIndex = index, buffer = downscaleMipMap env cb4 (mipMapLevel imp - 0),
            entryLocker = tileEntryLocker s4 \<rparr>"
    by (simp add: channelTileOf_def thisChannelTileBuffer_def)
  show ?thesis
    using run tile d2(3,4) by (simp add: downscaleMipMap_def)
qed

section \<open>Properties of the parallel copy\<close>







end
